theory Spec2Isabelle
  imports Complex_Main "HOL-Library.AList"
begin

section \<open>JavaScript values\<close>

text \<open>
  The validators take values of type \<^verbatim>\<open>unknown\<close> and inspect them with \<^verbatim>\<open>typeof\<close>,
  \<^verbatim>\<open>Array.isArray\<close> and property reads, so the model needs the dynamic values themselves.

  A number is a finite value or one of the three non-finite IEEE values. A finite value is
  a rational: every binary64 number is one, and the two zeros, which no comparison tells
  apart, are one value. Comparisons follow ECMAScript: every comparison with \<open>NaN\<close> is
  false, and \<open>NaN\<close> is not strictly equal to itself.

  The program's \<^verbatim>\<open>+\<close> rounds its result to binary64 and can overflow, so it is not
  defined here: it is the parameter \<open>fadd\<close> of every function that adds, and a property of
  such a function is proved for every \<open>fadd\<close>, the addition of binary64 among them.
  \<open>js_add\<close> is the exact sum. It is what \<^verbatim>\<open>+\<close> gives whenever the exact sum of its two
  binary64 operands is a binary64 number, as it is for the small whole numbers of the
  examples in this theory, which use it for \<open>fadd\<close>.
\<close>

datatype jsnum = Fin rat | PosInf | NegInf | NaN

fun isFinite :: "jsnum \<Rightarrow> bool" where
  "isFinite (Fin _) = True"
| "isFinite PosInf = False"
| "isFinite NegInf = False"
| "isFinite NaN = False"

fun js_lt :: "jsnum \<Rightarrow> jsnum \<Rightarrow> bool" where
  "js_lt (Fin a) (Fin b) = (a < b)"
| "js_lt (Fin _) PosInf = True"
| "js_lt (Fin _) NegInf = False"
| "js_lt (Fin _) NaN = False"
| "js_lt PosInf _ = False"
| "js_lt NegInf (Fin _) = True"
| "js_lt NegInf PosInf = True"
| "js_lt NegInf NegInf = False"
| "js_lt NegInf NaN = False"
| "js_lt NaN _ = False"

fun js_le :: "jsnum \<Rightarrow> jsnum \<Rightarrow> bool" where
  "js_le (Fin a) (Fin b) = (a \<le> b)"
| "js_le (Fin _) PosInf = True"
| "js_le (Fin _) NegInf = False"
| "js_le (Fin _) NaN = False"
| "js_le PosInf PosInf = True"
| "js_le PosInf _ = False"
| "js_le NegInf NaN = False"
| "js_le NegInf _ = True"
| "js_le NaN _ = False"

definition js_gt :: "jsnum \<Rightarrow> jsnum \<Rightarrow> bool" where
  "js_gt a b = js_lt b a"

text \<open>Strict equality \<^verbatim>\<open>===\<close> on two numbers.\<close>

definition js_eq :: "jsnum \<Rightarrow> jsnum \<Rightarrow> bool" where
  "js_eq a b = (a \<noteq> NaN \<and> a = b)"

fun js_add :: "jsnum \<Rightarrow> jsnum \<Rightarrow> jsnum" where
  "js_add (Fin a) (Fin b) = Fin (a + b)"
| "js_add NaN _ = NaN"
| "js_add _ NaN = NaN"
| "js_add PosInf NegInf = NaN"
| "js_add NegInf PosInf = NaN"
| "js_add PosInf _ = PosInf"
| "js_add NegInf _ = NegInf"
| "js_add (Fin _) PosInf = PosInf"
| "js_add (Fin _) NegInf = NegInf"

text \<open>
  The values that \<^verbatim>\<open>JSON.parse\<close> can produce, and \<^verbatim>\<open>undefined\<close>. An object is the list
  of its own properties; a property read takes the first entry with that name.
\<close>

datatype jsval =
    JUndefined
  | JNull
  | JBool bool
  | JNum jsnum
  | JStr string
  | JArr "jsval list"
  | JObj "(string \<times> jsval) list"

fun js_typeof :: "jsval \<Rightarrow> string" where
  "js_typeof JUndefined = ''undefined''"
| "js_typeof JNull = ''object''"
| "js_typeof (JBool _) = ''boolean''"
| "js_typeof (JNum _) = ''number''"
| "js_typeof (JStr _) = ''string''"
| "js_typeof (JArr _) = ''object''"
| "js_typeof (JObj _) = ''object''"

text \<open>
  \<open>js_get v k\<close> is the property read \<^verbatim>\<open>v[k]\<close> for a value \<open>v\<close> other than \<^verbatim>\<open>null\<close> and
  \<^verbatim>\<open>undefined\<close> and for the property names this program reads (\<^verbatim>\<open>Title\<close>, \<^verbatim>\<open>Time\<close>,
  \<^verbatim>\<open>Elapsed Time\<close>, ...): none of them is a property of an array, of a primitive or of
  \<^verbatim>\<open>Object.prototype\<close>, so the read gives \<^verbatim>\<open>undefined\<close> unless an object has the property
  itself. On \<^verbatim>\<open>null\<close> and \<^verbatim>\<open>undefined\<close> the read throws; each caller that can reach it
  models the throw.
\<close>

fun js_get :: "jsval \<Rightarrow> string \<Rightarrow> jsval" where
  "js_get (JObj fs) k = (case map_of fs k of Some v \<Rightarrow> v | None \<Rightarrow> JUndefined)"
| "js_get _ k = JUndefined"

subsection \<open>Strings\<close>

text \<open>
  A string is the list of its code units, and a character of HOL is a code unit below
  \<open>0x100\<close>: the strings of this model are the strings of the program whose code units are
  all below \<open>0x100\<close>. Of these code units \<^verbatim>\<open>String.prototype.trim\<close> removes seven: tab,
  line feed, vertical tab, form feed, carriage return, space and the no-break space
  \<open>0xA0\<close> (its other white space and line terminators are \<open>0x1680\<close> and above).
  \<open>js_toLowerCase\<close> maps the ASCII capitals.
\<close>

definition js_isSpace :: "char \<Rightarrow> bool" where
  "js_isSpace c =
     (c \<in> set [CHR 0x09, CHR 0x0A, CHR 0x0B, CHR 0x0C, CHR 0x0D, CHR 0x20, CHR 0xA0])"

definition js_trim :: "string \<Rightarrow> string" where
  "js_trim s = rev (dropWhile js_isSpace (rev (dropWhile js_isSpace s)))"

definition js_lowerChar :: "char \<Rightarrow> char" where
  "js_lowerChar c =
     (case map_of (zip ''ABCDEFGHIJKLMNOPQRSTUVWXYZ'' ''abcdefghijklmnopqrstuvwxyz'') c of
        Some d \<Rightarrow> d
      | None \<Rightarrow> c)"

definition js_toLowerCase :: "string \<Rightarrow> string" where
  "js_toLowerCase s = map js_lowerChar s"

definition js_endsWith :: "string \<Rightarrow> string \<Rightarrow> bool" where
  "js_endsWith s suf = (length suf \<le> length s \<and> drop (length s - length suf) s = suf)"

fun js_join :: "string \<Rightarrow> string list \<Rightarrow> string" where
  "js_join sep [] = []"
| "js_join sep [x] = x"
| "js_join sep (x # y # ys) = x @ sep @ js_join sep (y # ys)"

subsection \<open>Messages\<close>

text \<open>
  A message is a template string: the list of its literal pieces and of the values
  interpolated into it, in order. An interpolated number is kept as the number
  (\<open>Num\<close>), so that no theorem depends on how a number is printed.
\<close>

datatype piece = Txt string | Num jsnum

type_synonym message = "piece list"

definition idx :: "nat \<Rightarrow> jsnum" where
  "idx i = Fin (of_nat i)"

section \<open>types.ts\<close>

record Workout =
  Title :: string
  Image :: string
  Workout_URL :: string

record WorkoutSegment =
  Time :: jsnum
  Activity :: string
  Resistance :: jsnum
  Cadence :: jsnum
  Stroke_instruction :: string
  Elapsed_Time :: jsnum

type_synonym WorkoutDetails = "WorkoutSegment list"

text \<open>
  The error classes. \<open>DataLoadError message filePath cause\<close> and
  \<open>NetworkError message url statusCode cause\<close> carry the fields of their constructors;
  \<open>TypeError\<close> is the engine's error for a property read on \<^verbatim>\<open>null\<close> or \<^verbatim>\<open>undefined\<close>,
  \<open>OtherError\<close> any other \<^verbatim>\<open>Error\<close> (an aborted or failed fetch, a \<^verbatim>\<open>SyntaxError\<close> of the
  JSON parser, a failed read).
\<close>

datatype js_error =
    DataLoadError message string "js_error option"
  | NetworkError message string "nat option" "js_error option"
  | TypeError message
  | OtherError message

fun error_message :: "js_error \<Rightarrow> message" where
  "error_message (DataLoadError m _ _) = m"
| "error_message (NetworkError m _ _ _) = m"
| "error_message (TypeError m) = m"
| "error_message (OtherError m) = m"

record ValidationResult =
  valid :: bool
  errors :: "message list"
  warnings :: "message list"

text \<open>
  The three ways in which the validators update their \<^verbatim>\<open>result\<close>:
  \<^verbatim>\<open>result.valid = false\<close>, \<^verbatim>\<open>result.errors.push(...ms)\<close> and
  \<^verbatim>\<open>result.warnings.push(...ms)\<close>; \<open>fail\<close> is the pair
  \<^verbatim>\<open>result.valid = false; result.errors.push(m)\<close>.
\<close>

definition new_result :: ValidationResult where
  "new_result = \<lparr>valid = True, errors = [], warnings = []\<rparr>"

definition set_invalid :: "ValidationResult \<Rightarrow> ValidationResult" where
  "set_invalid r = r\<lparr>valid := False\<rparr>"

definition push_errors :: "message list \<Rightarrow> ValidationResult \<Rightarrow> ValidationResult" where
  "push_errors ms r = r\<lparr>errors := errors r @ ms\<rparr>"

definition push_warnings :: "message list \<Rightarrow> ValidationResult \<Rightarrow> ValidationResult" where
  "push_warnings ms r = r\<lparr>warnings := warnings r @ ms\<rparr>"

definition fail :: "message \<Rightarrow> ValidationResult \<Rightarrow> ValidationResult" where
  "fail m r = push_errors [m] (set_invalid r)"

definition warn :: "message \<Rightarrow> ValidationResult \<Rightarrow> ValidationResult" where
  "warn m r = push_warnings [m] r"

section \<open>validators.ts\<close>

definition VALID_ACTIVITIES :: "string list" where
  "VALID_ACTIVITIES =
     [''Warm-up'', ''Intervals'', ''Recovery'', ''Cool-down'', ''Bonus Interval'',
      ''Standing Jog'', ''Satnding Jog'', ''Winding Streets'', ''Seated Climb'',
      ''Sprint'', ''Hill Climb'', ''Endurance'']"

definition minResistance :: jsnum where "minResistance = Fin 1"
definition maxResistance :: jsnum where "maxResistance = Fin 20"
definition minCadence :: jsnum where "minCadence = Fin 30"
definition maxCadence :: jsnum where "maxCadence = Fin 150"
definition minTime :: jsnum where "minTime = Fin 1"
definition maxTime :: jsnum where "maxTime = Fin 60"
definition maxElapsedTime :: jsnum where "maxElapsedTime = Fin 120"

subsection \<open>validateUrl\<close>

text \<open>
  \<^verbatim>\<open>new URL(url)\<close> is the platform's parser. It is a parameter \<open>newURL\<close> of the model:
  \<open>None\<close> when the constructor throws, otherwise the two components that the program
  reads.
\<close>

record parsed_url =
  protocol :: string
  hostname :: string

definition validateUrl ::
  "(string \<Rightarrow> parsed_url option) \<Rightarrow> string \<Rightarrow> string list option \<Rightarrow> ValidationResult" where
  "validateUrl newURL url allowedDomains =
     (let result = new_result in
      if url = [] \<or> js_trim url = [] then fail [Txt ''URL is empty''] result
      else
        (case newURL url of
           None \<Rightarrow> fail [Txt ''Invalid URL format: '', Txt url] result
         | Some parsedUrl \<Rightarrow>
             if protocol parsedUrl \<notin> set [''http:'', ''https:''] then
               fail [Txt ''Invalid protocol: '', Txt (protocol parsedUrl),
                     Txt '' (expected http or https)''] result
             else
               (let result = (if protocol parsedUrl = ''http:''
                              then warn [Txt ''URL uses insecure HTTP protocol''] result
                              else result)
                in case allowedDomains of
                     None \<Rightarrow> result
                   | Some allowed_list \<Rightarrow>
                       if length allowed_list > 0 then
                         (let domain = js_toLowerCase (hostname parsedUrl);
                              isAllowed = list_ex
                                (\<lambda>allowed. domain = js_toLowerCase allowed \<or>
                                   js_endsWith domain (''.'' @ js_toLowerCase allowed))
                                allowed_list
                          in if \<not> isAllowed then
                               fail [Txt (''Domain '' @ [CHR 0x27]), Txt domain,
                                     Txt ([CHR 0x27] @ '' is not in allowed list: ''),
                                     Txt (js_join '', '' allowed_list)] result
                             else result)
                       else result)))"

subsection \<open>validateWorkout and validateVideo\<close>

text \<open>
  Each validator is a sequence of blocks, one per field, that update \<^verbatim>\<open>result\<close> in turn.
  A block is a function from the result before it to the result after it, named after the
  block's comment in the source; the validator composes them in the source's order.
  \<^verbatim>\<open>typeof x !== "string"\<close> is the case of a value that is not \<open>JStr\<close>, and likewise for
  numbers.
\<close>

definition validate_Title :: "jsval \<Rightarrow> ValidationResult \<Rightarrow> ValidationResult" where
  "validate_Title v result =
     (case v of
        JStr t \<Rightarrow>
          if js_trim t = [] then fail [Txt ''Title cannot be empty''] result else result
      | _ \<Rightarrow> fail [Txt ''Title must be a string, got '', Txt (js_typeof v)] result)"

text \<open>
  The merge of a URL's result into the result of its owner:
  \<^verbatim>\<open>if (!urlResult.valid) { result.valid = false; result.errors.push(...prefixed errors) }\<close>
  and then \<^verbatim>\<open>result.warnings.push(...prefixed warnings)\<close>.
\<close>

definition merge_url_result ::
  "string \<Rightarrow> ValidationResult \<Rightarrow> ValidationResult \<Rightarrow> ValidationResult" where
  "merge_url_result prefix urlResult result =
     (let result = (if \<not> valid urlResult
                    then push_errors (map (\<lambda>e. Txt prefix # e) (errors urlResult))
                           (set_invalid result)
                    else result)
      in push_warnings (map (\<lambda>w. Txt prefix # w) (warnings urlResult)) result)"

definition validate_Image_URL ::
  "(string \<Rightarrow> parsed_url option) \<Rightarrow> jsval \<Rightarrow> ValidationResult \<Rightarrow> ValidationResult" where
  "validate_Image_URL newURL v result =
     (case v of
        JStr s \<Rightarrow>
          merge_url_result ''Image URL: ''
            (validateUrl newURL s
               (Some [''amazonaws.com'', ''github.com'', ''githubusercontent.com'']))
            result
      | _ \<Rightarrow> fail [Txt ''Image must be a string, got '', Txt (js_typeof v)] result)"

definition validate_Workout_URL ::
  "(string \<Rightarrow> parsed_url option) \<Rightarrow> jsval \<Rightarrow> ValidationResult \<Rightarrow> ValidationResult" where
  "validate_Workout_URL newURL v result =
     (case v of
        JStr s \<Rightarrow>
          (let result = merge_url_result ''Workout_URL: ''
                 (validateUrl newURL s
                    (Some [''github.com'', ''githubusercontent.com'',
                           ''raw.githubusercontent.com'']))
                 result
           in if s \<noteq> [] \<and> \<not> js_endsWith (js_toLowerCase s) ''.json''
              then warn [Txt ''Workout_URL does not end with .json extension''] result
              else result)
      | _ \<Rightarrow> fail [Txt ''Workout_URL must be a string, got '', Txt (js_typeof v)] result)"

definition validateWorkout ::
  "(string \<Rightarrow> parsed_url option) \<Rightarrow> jsval \<Rightarrow> ValidationResult" where
  "validateWorkout newURL workout =
     (let result = new_result in
      if js_typeof workout \<noteq> ''object'' \<or> workout = JNull then
        fail [Txt ''Workout must be an object, got '', Txt (js_typeof workout)] result
      else
        (let result = validate_Title (js_get workout ''Title'') result;
             result = validate_Image_URL newURL (js_get workout ''Image'') result;
             result = validate_Workout_URL newURL (js_get workout ''Workout_URL'') result
         in result))"

definition validate_Subtitle :: "jsval \<Rightarrow> ValidationResult \<Rightarrow> ValidationResult" where
  "validate_Subtitle v result =
     (case v of
        JStr t \<Rightarrow> result
      | _ \<Rightarrow> fail [Txt ''Subtitle must be a string, got '', Txt (js_typeof v)] result)"

definition videoExtensions :: "string list" where
  "videoExtensions = [''.mp4'', ''.webm'', ''.mov'', ''.avi'']"

definition validate_Video_URL ::
  "(string \<Rightarrow> parsed_url option) \<Rightarrow> jsval \<Rightarrow> ValidationResult \<Rightarrow> ValidationResult" where
  "validate_Video_URL newURL v result =
     (case v of
        JStr s \<Rightarrow>
          (let result = merge_url_result ''Video URL: ''
                 (validateUrl newURL s (Some [''amazonaws.com''])) result;
               hasVideoExt = list_ex (\<lambda>ext. js_endsWith (js_toLowerCase s) ext) videoExtensions
           in if \<not> hasVideoExt
              then warn [Txt ''Video URL does not end with a known video extension ('',
                         Txt (js_join '', '' videoExtensions), Txt '')''] result
              else result)
      | _ \<Rightarrow> fail [Txt ''Video must be a string, got '', Txt (js_typeof v)] result)"

definition validateVideo ::
  "(string \<Rightarrow> parsed_url option) \<Rightarrow> jsval \<Rightarrow> ValidationResult" where
  "validateVideo newURL video =
     (let result = new_result in
      if js_typeof video \<noteq> ''object'' \<or> video = JNull then
        fail [Txt ''Video must be an object, got '', Txt (js_typeof video)] result
      else
        (let result = validate_Title (js_get video ''Title'') result;
             result = validate_Subtitle (js_get video ''Subtitle'') result;
             result = validate_Image_URL newURL (js_get video ''Image'') result;
             result = validate_Video_URL newURL (js_get video ''Video'') result
         in result))"

subsection \<open>validateSegment\<close>

definition validate_Time :: "jsnum \<Rightarrow> jsval \<Rightarrow> ValidationResult \<Rightarrow> ValidationResult" where
  "validate_Time index v result =
     (case v of
        JNum t \<Rightarrow>
          if \<not> isFinite t then
            fail [Txt ''Segment '', Num index, Txt '': Time must be a finite number''] result
          else if js_lt t minTime then
            fail [Txt ''Segment '', Num index, Txt '': Time '', Num t,
                  Txt '' is less than minimum '', Num minTime] result
          else if js_gt t maxTime then
            warn [Txt ''Segment '', Num index, Txt '': Time '', Num t,
                  Txt '' exceeds typical maximum '', Num maxTime] result
          else result
      | _ \<Rightarrow>
          fail [Txt ''Segment '', Num index, Txt '': Time must be a number, got '',
                Txt (js_typeof v)] result)"

definition validate_Activity :: "jsnum \<Rightarrow> jsval \<Rightarrow> ValidationResult \<Rightarrow> ValidationResult" where
  "validate_Activity index v result =
     (case v of
        JStr a \<Rightarrow>
          if js_trim a = [] then
            fail [Txt ''Segment '', Num index, Txt '': Activity cannot be empty''] result
          else if a \<notin> set VALID_ACTIVITIES then
            warn [Txt ''Segment '', Num index, Txt ('': Activity '' @ [CHR 0x27]), Txt a,
                  Txt ([CHR 0x27] @ '' is not a recognized activity type'')] result
          else result
      | _ \<Rightarrow>
          fail [Txt ''Segment '', Num index, Txt '': Activity must be a string, got '',
                Txt (js_typeof v)] result)"

definition validate_Resistance :: "jsnum \<Rightarrow> jsval \<Rightarrow> ValidationResult \<Rightarrow> ValidationResult" where
  "validate_Resistance index v result =
     (case v of
        JNum r \<Rightarrow>
          if \<not> isFinite r then
            fail [Txt ''Segment '', Num index, Txt '': Resistance must be a finite number'']
              result
          else if js_lt r minResistance then
            fail [Txt ''Segment '', Num index, Txt '': Resistance '', Num r,
                  Txt '' is less than minimum '', Num minResistance] result
          else if js_gt r maxResistance then
            fail [Txt ''Segment '', Num index, Txt '': Resistance '', Num r,
                  Txt '' exceeds maximum '', Num maxResistance] result
          else result
      | _ \<Rightarrow>
          fail [Txt ''Segment '', Num index, Txt '': Resistance must be a number, got '',
                Txt (js_typeof v)] result)"

definition validate_Cadence :: "jsnum \<Rightarrow> jsval \<Rightarrow> ValidationResult \<Rightarrow> ValidationResult" where
  "validate_Cadence index v result =
     (case v of
        JNum c \<Rightarrow>
          if \<not> isFinite c then
            fail [Txt ''Segment '', Num index, Txt '': Cadence must be a finite number''] result
          else if js_lt c minCadence then
            fail [Txt ''Segment '', Num index, Txt '': Cadence '', Num c,
                  Txt '' is less than minimum '', Num minCadence] result
          else if js_gt c maxCadence then
            fail [Txt ''Segment '', Num index, Txt '': Cadence '', Num c,
                  Txt '' exceeds maximum '', Num maxCadence] result
          else result
      | _ \<Rightarrow>
          fail [Txt ''Segment '', Num index, Txt '': Cadence must be a number, got '',
                Txt (js_typeof v)] result)"

definition validate_Stroke_instruction ::
  "jsnum \<Rightarrow> jsval \<Rightarrow> ValidationResult \<Rightarrow> ValidationResult" where
  "validate_Stroke_instruction index v result =
     (case v of
        JStr s \<Rightarrow> result
      | _ \<Rightarrow>
          fail [Txt ''Segment '', Num index, Txt '': Stroke instruction must be a string, got '',
                Txt (js_typeof v)] result)"

text \<open>
  The message of the consistency check,
  \<^verbatim>\<open>Segment i: Elapsed Time e does not match expected x (previous: p + current Time: t)\<close>.
\<close>

definition elapsed_mismatch :: "jsnum \<Rightarrow> jsnum \<Rightarrow> jsnum \<Rightarrow> jsnum \<Rightarrow> jsnum \<Rightarrow> message" where
  "elapsed_mismatch index e expectedElapsed previousElapsedTime t =
     [Txt ''Segment '', Num index, Txt '': Elapsed Time '', Num e,
      Txt '' does not match expected '', Num expectedElapsed,
      Txt '' (previous: '', Num previousElapsedTime, Txt '' + current Time: '', Num t,
      Txt '')'']"

text \<open>
  The block of \<^verbatim>\<open>Elapsed Time\<close> reads \<^verbatim>\<open>s.Time\<close> too (\<open>tv\<close>). Its branches are one
  \<^verbatim>\<open>if ... else if\<close> chain: the consistency check is the last branch, after the branch of
  the warning.
\<close>

definition validate_Elapsed_Time ::
  "(jsnum \<Rightarrow> jsnum \<Rightarrow> jsnum) \<Rightarrow> jsnum \<Rightarrow> jsnum \<Rightarrow> jsval \<Rightarrow> jsval \<Rightarrow> ValidationResult
   \<Rightarrow> ValidationResult" where
  "validate_Elapsed_Time fadd index previousElapsedTime tv v result =
     (case v of
        JNum e \<Rightarrow>
          if \<not> isFinite e then
            fail [Txt ''Segment '', Num index, Txt '': Elapsed Time must be a finite number'']
              result
          else if js_lt e (Fin 0) then
            fail [Txt ''Segment '', Num index, Txt '': Elapsed Time '', Num e,
                  Txt '' cannot be negative''] result
          else if js_gt e maxElapsedTime then
            warn [Txt ''Segment '', Num index, Txt '': Elapsed Time '', Num e,
                  Txt '' exceeds typical workout duration''] result
          else
            (case tv of
               JNum t \<Rightarrow>
                 if isFinite t then
                   (let expectedElapsed = fadd previousElapsedTime t in
                    if \<not> js_eq e expectedElapsed then
                      fail (elapsed_mismatch index e expectedElapsed previousElapsedTime t)
                        result
                    else result)
                 else result
             | _ \<Rightarrow> result)
      | _ \<Rightarrow>
          fail [Txt ''Segment '', Num index, Txt '': Elapsed Time must be a number, got '',
                Txt (js_typeof v)] result)"

text \<open>
  \<open>previousElapsedTime\<close> has the default \<open>0\<close> in the source; the only caller in the
  program passes it.
\<close>

definition validateSegment ::
  "(jsnum \<Rightarrow> jsnum \<Rightarrow> jsnum) \<Rightarrow> jsval \<Rightarrow> jsnum \<Rightarrow> jsnum \<Rightarrow> ValidationResult" where
  "validateSegment fadd segment index previousElapsedTime =
     (let result = new_result in
      if js_typeof segment \<noteq> ''object'' \<or> segment = JNull then
        fail [Txt ''Segment '', Num index, Txt '' must be an object, got '',
              Txt (js_typeof segment)] result
      else
        (let result = validate_Time index (js_get segment ''Time'') result;
             result = validate_Activity index (js_get segment ''Activity'') result;
             result = validate_Resistance index (js_get segment ''Resistance'') result;
             result = validate_Cadence index (js_get segment ''Cadence'') result;
             result = validate_Stroke_instruction index
                        (js_get segment ''Stroke instruction'') result;
             result = validate_Elapsed_Time fadd index previousElapsedTime
                        (js_get segment ''Time'') (js_get segment ''Elapsed Time'') result
         in result))"

subsection \<open>validateWorkoutDetails\<close>

text \<open>
  The update of \<^verbatim>\<open>previousElapsedTime\<close> at the end of the loop body: the segment's own
  \<^verbatim>\<open>Time\<close> is added when it is a finite number.
\<close>

definition next_previousElapsedTime ::
  "(jsnum \<Rightarrow> jsnum \<Rightarrow> jsnum) \<Rightarrow> jsnum \<Rightarrow> jsval \<Rightarrow> jsnum" where
  "next_previousElapsedTime fadd previousElapsedTime segment =
     (case js_get segment ''Time'' of
        JNum t \<Rightarrow> if isFinite t then fadd previousElapsedTime t else previousElapsedTime
      | _ \<Rightarrow> previousElapsedTime)"

text \<open>
  The merge of a child's result: \<^verbatim>\<open>if (!child.valid) result.valid = false\<close>, then all the
  child's errors and warnings are pushed.
\<close>

definition merge_result :: "ValidationResult \<Rightarrow> ValidationResult \<Rightarrow> ValidationResult" where
  "merge_result child result =
     (let result = (if \<not> valid child then set_invalid result else result);
          result = push_errors (errors child) result;
          result = push_warnings (warnings child) result
      in result)"

text \<open>
  The loop over the segments, from index \<open>i\<close> on, with the rest of the array as a list.
  After the merge the body reads \<^verbatim>\<open>segment.Time\<close> on the element itself: that read throws a
  \<^verbatim>\<open>TypeError\<close> on \<^verbatim>\<open>null\<close> and \<^verbatim>\<open>undefined\<close>, which ends the function.
\<close>

fun validateSegments_loop ::
  "(jsnum \<Rightarrow> jsnum \<Rightarrow> jsnum) \<Rightarrow> jsval list \<Rightarrow> nat \<Rightarrow> jsnum \<Rightarrow> ValidationResult
   \<Rightarrow> js_error + ValidationResult" where
  "validateSegments_loop fadd [] i previousElapsedTime result = Inr result"
| "validateSegments_loop fadd (segment # rest) i previousElapsedTime result =
     (let segmentResult = validateSegment fadd segment (idx i) previousElapsedTime;
          result = merge_result segmentResult result
      in if segment = JNull \<or> segment = JUndefined then
           Inl (TypeError [Txt ''Cannot read properties of '',
                           Txt (if segment = JNull then ''null'' else ''undefined''),
                           Txt '' (reading '', Txt ([CHR 0x27] @ ''Time'' @ [CHR 0x27]),
                           Txt '')''])
         else validateSegments_loop fadd rest (Suc i)
                (next_previousElapsedTime fadd previousElapsedTime segment) result)"

definition check_warmup :: "jsval \<Rightarrow> ValidationResult \<Rightarrow> ValidationResult" where
  "check_warmup firstSegment result =
     (case js_get firstSegment ''Activity'' of
        JStr a \<Rightarrow>
          if a \<noteq> ''Warm-up'' then
            warn [Txt (''Workout does not start with a Warm-up (starts with '' @ [CHR 0x27]),
                  Txt a, Txt ([CHR 0x27] @ '')'')] result
          else result
      | _ \<Rightarrow> result)"

definition check_cooldown :: "jsval \<Rightarrow> ValidationResult \<Rightarrow> ValidationResult" where
  "check_cooldown lastSegment result =
     (case js_get lastSegment ''Activity'' of
        JStr a \<Rightarrow>
          if a \<noteq> ''Cool-down'' then
            warn [Txt (''Workout does not end with a Cool-down (ends with '' @ [CHR 0x27]),
                  Txt a, Txt ([CHR 0x27] @ '')'')] result
          else result
      | _ \<Rightarrow> result)"

text \<open>
  When the loop has returned, no element is \<^verbatim>\<open>null\<close> or \<^verbatim>\<open>undefined\<close>, so the reads of
  \<^verbatim>\<open>Activity\<close> on the first and the last element do not throw; the array is not empty
  there, so \<open>hd\<close> and \<open>last\<close> are its elements \<open>0\<close> and \<open>length - 1\<close>.
\<close>

definition validateWorkoutDetails ::
  "(jsnum \<Rightarrow> jsnum \<Rightarrow> jsnum) \<Rightarrow> jsval \<Rightarrow> js_error + ValidationResult" where
  "validateWorkoutDetails fadd workoutDetails =
     (let result = new_result in
      case workoutDetails of
        JArr segments \<Rightarrow>
          if length segments = 0 then
            Inr (fail [Txt ''Workout details array is empty''] result)
          else
            (case validateSegments_loop fadd segments 0 (Fin 0) result of
               Inl e \<Rightarrow> Inl e
             | Inr result \<Rightarrow>
                 Inr (check_cooldown (last segments) (check_warmup (hd segments) result)))
      | _ \<Rightarrow>
          Inr (fail [Txt ''Workout details must be an array, got '',
                     Txt (js_typeof workoutDetails)] result))"

subsection \<open>validateWorkoutsList and validateVideosList\<close>

definition merge_indexed ::
  "string \<Rightarrow> nat \<Rightarrow> ValidationResult \<Rightarrow> ValidationResult \<Rightarrow> ValidationResult" where
  "merge_indexed kind i child result =
     (let result = (if \<not> valid child then set_invalid result else result);
          result = push_errors (map (\<lambda>e. [Txt kind, Num (idx i), Txt '': ''] @ e) (errors child))
                     result;
          result = push_warnings
                     (map (\<lambda>w. [Txt kind, Num (idx i), Txt '': ''] @ w) (warnings child)) result
      in result)"

fun validateWorkouts_loop ::
  "(string \<Rightarrow> parsed_url option) \<Rightarrow> jsval list \<Rightarrow> nat \<Rightarrow> ValidationResult \<Rightarrow> ValidationResult"
  where
  "validateWorkouts_loop newURL [] i result = result"
| "validateWorkouts_loop newURL (w # rest) i result =
     validateWorkouts_loop newURL rest (Suc i)
       (merge_indexed ''Workout '' i (validateWorkout newURL w) result)"

definition validateWorkoutsList ::
  "(string \<Rightarrow> parsed_url option) \<Rightarrow> jsval \<Rightarrow> ValidationResult" where
  "validateWorkoutsList newURL workouts =
     (let result = new_result in
      case workouts of
        JArr ws \<Rightarrow>
          (let result = (if length ws = 0 then warn [Txt ''Workouts array is empty''] result
                         else result)
           in validateWorkouts_loop newURL ws 0 result)
      | _ \<Rightarrow> fail [Txt ''Workouts must be an array, got '', Txt (js_typeof workouts)] result)"

fun validateVideos_loop ::
  "(string \<Rightarrow> parsed_url option) \<Rightarrow> jsval list \<Rightarrow> nat \<Rightarrow> ValidationResult \<Rightarrow> ValidationResult"
  where
  "validateVideos_loop newURL [] i result = result"
| "validateVideos_loop newURL (v # rest) i result =
     validateVideos_loop newURL rest (Suc i)
       (merge_indexed ''Video '' i (validateVideo newURL v) result)"

definition validateVideosList ::
  "(string \<Rightarrow> parsed_url option) \<Rightarrow> jsval \<Rightarrow> ValidationResult" where
  "validateVideosList newURL videos =
     (let result = new_result in
      case videos of
        JArr vs \<Rightarrow>
          (let result = (if length vs = 0 then warn [Txt ''Videos array is empty''] result
                         else result)
           in validateVideos_loop newURL vs 0 result)
      | _ \<Rightarrow> fail [Txt ''Videos must be an array, got '', Txt (js_typeof videos)] result)"

section \<open>dataLoader.ts\<close>

subsection \<open>loadJsonFile\<close>

text \<open>
  The platform under the loader: \<open>resolvePath\<close> is the absolute path of a path
  (\<^verbatim>\<open>path.isAbsolute\<close>, \<^verbatim>\<open>path.resolve\<close>), \<open>fsNode\<close> what the file system has at an
  absolute path (nothing, something that is not a regular file, or a file with the
  outcome of reading it), \<open>jsonParse\<close> the outcome of \<^verbatim>\<open>JSON.parse\<close>.
\<close>

datatype fs_node = NotAFile | RegularFile "js_error + string"

record platform =
  resolvePath :: "string \<Rightarrow> string"
  fsNode :: "string \<Rightarrow> fs_node option"
  jsonParse :: "string \<Rightarrow> js_error + jsval"

definition loadJsonFile :: "platform \<Rightarrow> string \<Rightarrow> js_error + jsval" where
  "loadJsonFile pf filePath =
     (let absolutePath = resolvePath pf filePath in
      case fsNode pf absolutePath of
        None \<Rightarrow> Inl (DataLoadError [Txt ''File not found: '', Txt absolutePath] absolutePath None)
      | Some NotAFile \<Rightarrow>
          Inl (DataLoadError [Txt ''Path is not a file: '', Txt absolutePath] absolutePath None)
      | Some (RegularFile (Inl error)) \<Rightarrow>
          Inl (DataLoadError (Txt ''Failed to read file: '' # error_message error)
                 absolutePath (Some error))
      | Some (RegularFile (Inr content)) \<Rightarrow>
          if js_trim content = [] then
            Inl (DataLoadError [Txt ''File is empty''] absolutePath None)
          else
            (case jsonParse pf content of
               Inl error \<Rightarrow>
                 Inl (DataLoadError (Txt ''Invalid JSON: '' # error_message error)
                        absolutePath (Some error))
             | Inr data \<Rightarrow> Inr data))"

subsection \<open>loadWorkoutDetails\<close>

text \<open>
  The body of the loop of \<^verbatim>\<open>loadWorkoutDetails\<close> for the element \<open>item\<close> at index \<open>i\<close>:
  the first check that fails throws, otherwise the typed segment is built.
\<close>

definition load_segment :: "string \<Rightarrow> nat \<Rightarrow> jsval \<Rightarrow> js_error + WorkoutSegment" where
  "load_segment filePath i item =
     (if js_typeof item \<noteq> ''object'' \<or> item = JNull then
        Inl (DataLoadError [Txt ''Segment at index '', Num (idx i), Txt '' is not an object'']
               filePath None)
      else
        (case js_get item ''Time'' of
           JNum t \<Rightarrow>
             if \<not> isFinite t then
               Inl (DataLoadError
                      [Txt ''Segment at index '', Num (idx i),
                       Txt '' has invalid 'Time' field: expected a number, got '',
                       Txt (js_typeof (js_get item ''Time''))] filePath None)
             else if js_le t (Fin 0) then
               Inl (DataLoadError
                      [Txt ''Segment at index '', Num (idx i),
                       Txt '' has invalid 'Time' value: '', Num t,
                       Txt '' (must be positive)''] filePath None)
             else
        (case js_get item ''Activity'' of
           JStr a \<Rightarrow>
        (case js_get item ''Resistance'' of
           JNum r \<Rightarrow>
             if \<not> isFinite r then
               Inl (DataLoadError
                      [Txt ''Segment at index '', Num (idx i),
                       Txt '' has invalid 'Resistance' field: expected a number, got '',
                       Txt (js_typeof (js_get item ''Resistance''))] filePath None)
             else if js_lt r (Fin 0) \<or> js_gt r (Fin 20) then
               Inl (DataLoadError
                      [Txt ''Segment at index '', Num (idx i),
                       Txt '' has invalid 'Resistance' value: '', Num r,
                       Txt '' (expected 0-20)''] filePath None)
             else
        (case js_get item ''Cadence'' of
           JNum c \<Rightarrow>
             if \<not> isFinite c then
               Inl (DataLoadError
                      [Txt ''Segment at index '', Num (idx i),
                       Txt '' has invalid 'Cadence' field: expected a number, got '',
                       Txt (js_typeof (js_get item ''Cadence''))] filePath None)
             else if js_lt c (Fin 0) \<or> js_gt c (Fin 150) then
               Inl (DataLoadError
                      [Txt ''Segment at index '', Num (idx i),
                       Txt '' has invalid 'Cadence' value: '', Num c,
                       Txt '' (expected 0-150)''] filePath None)
             else
        (case js_get item ''Stroke instruction'' of
           JStr s \<Rightarrow>
        (case js_get item ''Elapsed Time'' of
           JNum e \<Rightarrow>
             if \<not> isFinite e then
               Inl (DataLoadError
                      [Txt ''Segment at index '', Num (idx i),
                       Txt '' has invalid 'Elapsed Time' field: expected a number, got '',
                       Txt (js_typeof (js_get item ''Elapsed Time''))] filePath None)
             else if js_lt e (Fin 0) then
               Inl (DataLoadError
                      [Txt ''Segment at index '', Num (idx i),
                       Txt '' has invalid 'Elapsed Time' value: '', Num e,
                       Txt '' (must be non-negative)''] filePath None)
             else
               Inr \<lparr>Time = t, Activity = a, Resistance = r, Cadence = c,
                    Stroke_instruction = s, Elapsed_Time = e\<rparr>
         | v \<Rightarrow>
             Inl (DataLoadError
                    [Txt ''Segment at index '', Num (idx i),
                     Txt '' has invalid 'Elapsed Time' field: expected a number, got '',
                     Txt (js_typeof v)] filePath None))
         | v \<Rightarrow>
             Inl (DataLoadError
                    [Txt ''Segment at index '', Num (idx i),
                     Txt '' has invalid 'Stroke instruction' field: expected a string, got '',
                     Txt (js_typeof v)] filePath None))
         | v \<Rightarrow>
             Inl (DataLoadError
                    [Txt ''Segment at index '', Num (idx i),
                     Txt '' has invalid 'Cadence' field: expected a number, got '',
                     Txt (js_typeof v)] filePath None))
         | v \<Rightarrow>
             Inl (DataLoadError
                    [Txt ''Segment at index '', Num (idx i),
                     Txt '' has invalid 'Resistance' field: expected a number, got '',
                     Txt (js_typeof v)] filePath None))
         | v \<Rightarrow>
             Inl (DataLoadError
                    [Txt ''Segment at index '', Num (idx i),
                     Txt '' has invalid 'Activity' field: expected a string, got '',
                     Txt (js_typeof v)] filePath None))
         | v \<Rightarrow>
             Inl (DataLoadError
                    [Txt ''Segment at index '', Num (idx i),
                     Txt '' has invalid 'Time' field: expected a number, got '',
                     Txt (js_typeof v)] filePath None)))"

text \<open>The loop: \<open>segments\<close> is the array built so far, pushed to at the end of each round.\<close>

fun load_segments_loop ::
  "string \<Rightarrow> jsval list \<Rightarrow> nat \<Rightarrow> WorkoutSegment list \<Rightarrow> js_error + WorkoutDetails" where
  "load_segments_loop filePath [] i segments = Inr segments"
| "load_segments_loop filePath (item # rest) i segments =
     (case load_segment filePath i item of
        Inl error \<Rightarrow> Inl error
      | Inr segment \<Rightarrow> load_segments_loop filePath rest (Suc i) (segments @ [segment]))"

definition loadWorkoutDetails :: "platform \<Rightarrow> string \<Rightarrow> js_error + WorkoutDetails" where
  "loadWorkoutDetails pf filePath =
     (case loadJsonFile pf filePath of
        Inl error \<Rightarrow> Inl error
      | Inr data \<Rightarrow>
          (case data of
             JArr items \<Rightarrow>
               if length items = 0 then
                 Inl (DataLoadError [Txt ''Workout details array is empty''] filePath None)
               else load_segments_loop filePath items 0 []
           | _ \<Rightarrow>
               Inl (DataLoadError [Txt ''Expected array but got '', Txt (js_typeof data)]
                      filePath None)))"

subsection \<open>fetchWithRetry\<close>

text \<open>
  The network: \<open>net attempt\<close> is the outcome of the call of \<^verbatim>\<open>fetch\<close> in round
  \<open>attempt\<close> of the loop (each round calls it once). \<open>Rejected\<close> is a call that throws
  (the abort of the timeout, a network failure); \<open>Response status statusText body\<close> is a
  response, with the outcome of \<^verbatim>\<open>response.text()\<close>. The clock is not modelled: a timeout
  is one of the rejections, and a wait is recorded as an event.
\<close>

datatype fetch_result = Rejected js_error | Response nat string "js_error + string"

datatype event = Fetch nat | Sleep int

record FetchConfig =
  timeoutMs :: "int option"
  retries :: "int option"
  retryDelayMs :: "int option"

definition DEFAULT_timeoutMs :: int where "DEFAULT_timeoutMs = 30000"
definition DEFAULT_retries :: int where "DEFAULT_retries = 3"
definition DEFAULT_retryDelayMs :: int where "DEFAULT_retryDelayMs = 1000"

definition response_ok :: "nat \<Rightarrow> bool" where
  "response_ok status = (200 \<le> status \<and> status \<le> 299)"

definition nonRetriable :: "nat list" where
  "nonRetriable = [400, 401, 403, 404, 405, 422]"

text \<open>The inner \<^verbatim>\<open>try\<close> block of one round: the text of the response, or what is thrown.\<close>

definition attempt_fetch :: "string \<Rightarrow> fetch_result \<Rightarrow> js_error + string" where
  "attempt_fetch url outcome =
     (case outcome of
        Rejected error \<Rightarrow> Inl error
      | Response status statusText body \<Rightarrow>
          if \<not> response_ok status then
            Inl (NetworkError [Txt ''HTTP error '', Num (idx status), Txt '': '', Txt statusText]
                   url (Some status) None)
          else body)"

text \<open>
  \<^verbatim>\<open>error instanceof NetworkError && error.statusCode\<close> and
  \<^verbatim>\<open>nonRetriable.includes(error.statusCode)\<close>: a status code \<open>0\<close> is falsy.
\<close>

definition dont_retry :: "js_error \<Rightarrow> bool" where
  "dont_retry error =
     (case error of
        NetworkError m u (Some statusCode) c \<Rightarrow> statusCode \<noteq> 0 \<and> statusCode \<in> set nonRetriable
      | _ \<Rightarrow> False)"

text \<open>
  The loop \<^verbatim>\<open>for (attempt = 0; attempt <= retries; attempt++)\<close> from round \<open>attempt\<close> on, and
  the \<^verbatim>\<open>throw\<close> after it. The result comes with the events of the run, in order.
\<close>

function fetch_loop ::
  "string \<Rightarrow> int \<Rightarrow> int \<Rightarrow> (nat \<Rightarrow> fetch_result) \<Rightarrow> nat \<Rightarrow> js_error option
   \<Rightarrow> (js_error + string) \<times> event list" where
  "fetch_loop url retries_n retryDelay net attempt lastError =
     (if int attempt \<le> retries_n then
        (case attempt_fetch url (net attempt) of
           Inr text \<Rightarrow> (Inr text, [Fetch attempt])
         | Inl error \<Rightarrow>
             if dont_retry error then (Inl error, [Fetch attempt])
             else
               (case fetch_loop url retries_n retryDelay net (Suc attempt) (Some error) of
                  (res, evs) \<Rightarrow>
                    (res,
                     Fetch attempt #
                     (if int attempt < retries_n then [Sleep (retryDelay * 2 ^ attempt)] else [])
                     @ evs)))
      else
        (Inl (NetworkError
                ([Txt ''Failed after '', Num (Fin (of_int (retries_n + 1))), Txt '' attempts: '']
                 @ (case lastError of
                      None \<Rightarrow> [Txt ''undefined'']
                    | Some e \<Rightarrow> error_message e))
                url None lastError),
         []))"
  by pat_completeness auto
termination
  by (relation "measure (\<lambda>(url, retries_n, retryDelay, net, attempt, lastError).
                  nat (retries_n + 1 - int attempt))") auto

definition fetchWithRetry ::
  "(string \<Rightarrow> parsed_url option) \<Rightarrow> (nat \<Rightarrow> fetch_result) \<Rightarrow> string \<Rightarrow> FetchConfig
   \<Rightarrow> (js_error + string) \<times> event list" where
  "fetchWithRetry newURL net url config =
     (let retries_n = (case retries config of None \<Rightarrow> DEFAULT_retries | Some n \<Rightarrow> n);
          retryDelay = (case retryDelayMs config of None \<Rightarrow> DEFAULT_retryDelayMs | Some d \<Rightarrow> d)
      in case newURL url of
           None \<Rightarrow> (Inl (NetworkError [Txt ''Invalid URL format: '', Txt url] url None None), [])
         | Some parsedUrl \<Rightarrow>
             if protocol parsedUrl \<notin> set [''http:'', ''https:''] then
               (Inl (NetworkError [Txt ''Unsupported protocol: '', Txt (protocol parsedUrl)]
                       url None None), [])
             else fetch_loop url retries_n retryDelay net 0 None)"

subsection \<open>fetchWorkoutDetails\<close>

definition fetch_segment :: "string \<Rightarrow> nat \<Rightarrow> jsval \<Rightarrow> js_error + WorkoutSegment" where
  "fetch_segment url i item =
     (if js_typeof item \<noteq> ''object'' \<or> item = JNull then
        Inl (DataLoadError [Txt ''Segment at index '', Num (idx i), Txt '' is not an object'']
               url None)
      else
        (case js_get item ''Time'' of
           JNum t \<Rightarrow>
             if js_le t (Fin 0) then
               Inl (DataLoadError [Txt ''Segment at index '', Num (idx i),
                                   Txt '' has invalid 'Time' field''] url None)
             else
        (case js_get item ''Activity'' of
           JStr a \<Rightarrow>
        (case js_get item ''Resistance'' of
           JNum r \<Rightarrow>
        (case js_get item ''Cadence'' of
           JNum c \<Rightarrow>
        (case js_get item ''Stroke instruction'' of
           JStr s \<Rightarrow>
        (case js_get item ''Elapsed Time'' of
           JNum e \<Rightarrow>
             Inr \<lparr>Time = t, Activity = a, Resistance = r, Cadence = c,
                  Stroke_instruction = s, Elapsed_Time = e\<rparr>
         | _ \<Rightarrow> Inl (DataLoadError [Txt ''Segment at index '', Num (idx i),
                                   Txt '' has invalid 'Elapsed Time' field''] url None))
         | _ \<Rightarrow> Inl (DataLoadError [Txt ''Segment at index '', Num (idx i),
                                   Txt '' has invalid 'Stroke instruction' field''] url None))
         | _ \<Rightarrow> Inl (DataLoadError [Txt ''Segment at index '', Num (idx i),
                                   Txt '' has invalid 'Cadence' field''] url None))
         | _ \<Rightarrow> Inl (DataLoadError [Txt ''Segment at index '', Num (idx i),
                                   Txt '' has invalid 'Resistance' field''] url None))
         | _ \<Rightarrow> Inl (DataLoadError [Txt ''Segment at index '', Num (idx i),
                                   Txt '' has invalid 'Activity' field''] url None))
         | _ \<Rightarrow> Inl (DataLoadError [Txt ''Segment at index '', Num (idx i),
                                   Txt '' has invalid 'Time' field''] url None)))"

fun fetch_segments_loop ::
  "string \<Rightarrow> jsval list \<Rightarrow> nat \<Rightarrow> WorkoutSegment list \<Rightarrow> js_error + WorkoutDetails" where
  "fetch_segments_loop url [] i segments = Inr segments"
| "fetch_segments_loop url (item # rest) i segments =
     (case fetch_segment url i item of
        Inl error \<Rightarrow> Inl error
      | Inr segment \<Rightarrow> fetch_segments_loop url rest (Suc i) (segments @ [segment]))"

text \<open>The part of \<^verbatim>\<open>fetchWorkoutDetails\<close> after \<^verbatim>\<open>JSON.parse\<close>: the checks on the parsed data.\<close>

definition fetch_checks :: "string \<Rightarrow> jsval \<Rightarrow> js_error + WorkoutDetails" where
  "fetch_checks url data =
     (case data of
        JArr items \<Rightarrow> fetch_segments_loop url items 0 []
      | _ \<Rightarrow>
          Inl (DataLoadError [Txt ''Expected array but got '', Txt (js_typeof data)] url None))"

definition fetchWorkoutDetails ::
  "platform \<Rightarrow> (string \<Rightarrow> parsed_url option) \<Rightarrow> (nat \<Rightarrow> fetch_result) \<Rightarrow> string
   \<Rightarrow> FetchConfig \<Rightarrow> (js_error + WorkoutDetails) \<times> event list" where
  "fetchWorkoutDetails pf newURL net url config =
     (case fetchWithRetry newURL net url config of
        (Inl error, evs) \<Rightarrow> (Inl error, evs)
      | (Inr content, evs) \<Rightarrow>
          (case jsonParse pf content of
             Inl error \<Rightarrow>
               (Inl (DataLoadError (Txt ''Invalid JSON from URL: '' # error_message error)
                       url (Some error)), evs)
           | Inr data \<Rightarrow> (fetch_checks url data, evs)))"

subsection \<open>getCurrentSegment\<close>

fun current_loop :: "WorkoutSegment list \<Rightarrow> jsnum \<Rightarrow> WorkoutSegment option" where
  "current_loop [] elapsedMinutes = None"
| "current_loop (segment # rest) elapsedMinutes =
     (if js_le elapsedMinutes (Elapsed_Time segment) then Some segment
      else current_loop rest elapsedMinutes)"

definition getCurrentSegment :: "WorkoutDetails \<Rightarrow> jsnum \<Rightarrow> WorkoutSegment option" where
  "getCurrentSegment segments elapsedMinutes =
     (if length segments = 0 then None
      else if js_lt elapsedMinutes (Fin 0) then Some (segments ! 0)
      else current_loop segments elapsedMinutes)"

section \<open>Specification predicates\<close>

text \<open>
  The invariant of a result: it is valid exactly when it has no error.
\<close>

definition consistent :: "ValidationResult \<Rightarrow> bool" where
  "consistent r = (valid r = (errors r = []))"

text \<open>
  The errors of the \<^verbatim>\<open>Resistance\<close> block of \<open>validateSegment\<close> are the messages
  \<^verbatim>\<open>Segment i: Resistance ...\<close>; no other block has a message of that form.
\<close>

definition is_Resistance_error :: "message \<Rightarrow> bool" where
  "is_Resistance_error m =
     (case m of
        Txt a # Num i # Txt b # rest \<Rightarrow> a = ''Segment '' \<and> take 13 b = '': Resistance ''
      | _ \<Rightarrow> False)"

text \<open>
  A segment object with its six fields, and a typed segment seen as a value of type
  \<^verbatim>\<open>unknown\<close> (in the program it is the same object).
\<close>

definition segment_object ::
  "jsnum \<Rightarrow> string \<Rightarrow> jsnum \<Rightarrow> jsnum \<Rightarrow> string \<Rightarrow> jsnum \<Rightarrow> jsval" where
  "segment_object t a r c s e =
     JObj [(''Time'', JNum t), (''Activity'', JStr a), (''Resistance'', JNum r),
           (''Cadence'', JNum c), (''Stroke instruction'', JStr s), (''Elapsed Time'', JNum e)]"

definition segment_to_js :: "WorkoutSegment \<Rightarrow> jsval" where
  "segment_to_js seg =
     segment_object (Time seg) (Activity seg) (Resistance seg) (Cadence seg)
       (Stroke_instruction seg) (Elapsed_Time seg)"

text \<open>The condition under which the block of Elapsed Time pushes no error.\<close>

definition Elapsed_Time_passes ::
  "(jsnum \<Rightarrow> jsnum \<Rightarrow> jsnum) \<Rightarrow> jsnum \<Rightarrow> jsval \<Rightarrow> jsval \<Rightarrow> bool" where
  "Elapsed_Time_passes fadd p tv v =
     (case v of
        JNum (Fin e) \<Rightarrow>
          0 \<le> e \<and>
          (120 < e \<or>
           (case tv of
              JNum (Fin t) \<Rightarrow> js_eq (Fin e) (fadd p (Fin t))
            | _ \<Rightarrow> True))
      | _ \<Rightarrow> False)"

text \<open>
  What the loader requires of one element, field by field, stated apart from the code:
  \<^verbatim>\<open>Time\<close> finite and positive, \<^verbatim>\<open>Resistance\<close> finite in \<open>[0, 20]\<close>, \<^verbatim>\<open>Cadence\<close> finite in
  \<open>[0, 150]\<close>, \<^verbatim>\<open>Elapsed Time\<close> finite and not negative, \<^verbatim>\<open>Activity\<close> and
  \<^verbatim>\<open>Stroke instruction\<close> strings. \<open>first_bad_field\<close> is the first field, in the order of the
  checks, that does not meet its requirement; \<open>names_field f m\<close> says that the message
  \<open>m\<close> has the name \<open>f\<close> in quotes.
\<close>

definition required_fields :: "string list" where
  "required_fields =
     [''Time'', ''Activity'', ''Resistance'', ''Cadence'', ''Stroke instruction'', ''Elapsed Time'']"

definition field_loads :: "string \<Rightarrow> jsval \<Rightarrow> bool" where
  "field_loads f v =
     (if f = ''Time'' then (case v of JNum (Fin t) \<Rightarrow> 0 < t | _ \<Rightarrow> False)
      else if f = ''Resistance'' then (case v of JNum (Fin r) \<Rightarrow> 0 \<le> r \<and> r \<le> 20 | _ \<Rightarrow> False)
      else if f = ''Cadence'' then (case v of JNum (Fin c) \<Rightarrow> 0 \<le> c \<and> c \<le> 150 | _ \<Rightarrow> False)
      else if f = ''Elapsed Time'' then (case v of JNum (Fin e) \<Rightarrow> 0 \<le> e | _ \<Rightarrow> False)
      else (case v of JStr s \<Rightarrow> True | _ \<Rightarrow> False))"

definition load_accepts :: "jsval \<Rightarrow> bool" where
  "load_accepts item =
     (js_typeof item = ''object'' \<and> item \<noteq> JNull \<and>
      list_all (\<lambda>f. field_loads f (js_get item f)) required_fields)"

definition first_bad_field :: "jsval \<Rightarrow> string option" where
  "first_bad_field item = find (\<lambda>f. \<not> field_loads f (js_get item f)) required_fields"

fun contains :: "string \<Rightarrow> string \<Rightarrow> bool" where
  "contains sub [] = (sub = [])"
| "contains sub (c # cs) = (take (length sub) (c # cs) = sub \<or> contains sub cs)"

definition names_field :: "string \<Rightarrow> message \<Rightarrow> bool" where
  "names_field f m =
     list_ex (\<lambda>p. case p of Txt s \<Rightarrow> contains ([CHR 0x27] @ f @ [CHR 0x27]) s | Num n \<Rightarrow> False) m"

text \<open>
  The number of calls of \<^verbatim>\<open>fetch\<close> in a run, and a round that fails with an error that
  the loop retries.
\<close>

fun count_fetches :: "event list \<Rightarrow> nat" where
  "count_fetches [] = 0"
| "count_fetches (Fetch n # evs) = Suc (count_fetches evs)"
| "count_fetches (Sleep d # evs) = count_fetches evs"


text \<open>
  \<open>elapsed_before fadd items j\<close> is the value of \<^verbatim>\<open>previousElapsedTime\<close> when the loop of
  \<open>validateWorkoutDetails\<close> reaches index \<open>j\<close>; \<open>checks_before_Elapsed_Time\<close> is the result
  of \<open>validateSegment\<close> on an object after its first five blocks.
\<close>

definition elapsed_before :: "(jsnum \<Rightarrow> jsnum \<Rightarrow> jsnum) \<Rightarrow> jsval list \<Rightarrow> nat \<Rightarrow> jsnum" where
  "elapsed_before fadd items j = foldl (next_previousElapsedTime fadd) (Fin 0) (take j items)"

definition checks_before_Elapsed_Time :: "jsval \<Rightarrow> jsnum \<Rightarrow> ValidationResult" where
  "checks_before_Elapsed_Time segment index =
     validate_Stroke_instruction index (js_get segment ''Stroke instruction'')
       (validate_Cadence index (js_get segment ''Cadence'')
          (validate_Resistance index (js_get segment ''Resistance'')
             (validate_Activity index (js_get segment ''Activity'')
                (validate_Time index (js_get segment ''Time'') new_result))))"

text \<open>
  The \<^verbatim>\<open>Time\<close> field of a segment as a number (\<open>NaN\<close> when it is not a number).
\<close>

definition Time_number :: "jsval \<Rightarrow> jsnum" where
  "Time_number segment = (case js_get segment ''Time'' of JNum t \<Rightarrow> t | _ \<Rightarrow> NaN)"

section \<open>Example data\<close>

text \<open>Concrete inputs, used where a property is run on an example.\<close>

definition example_segment :: "rat \<Rightarrow> rat \<Rightarrow> WorkoutSegment" where
  "example_segment t e =
     \<lparr>Time = Fin t, Activity = ''Sprint'', Resistance = Fin 5, Cadence = Fin 80,
      Stroke_instruction = [], Elapsed_Time = Fin e\<rparr>"

text \<open>
  A parser \<open>newURL\<close> that knows three URLs, with the components the platform gives
  for them, and rejects every other string.
\<close>

definition example_newURL :: "string \<Rightarrow> parsed_url option" where
  "example_newURL url =
     (if url = ''ftp://x.com'' then Some \<lparr>protocol = ''ftp:'', hostname = ''x.com''\<rparr>
      else if url = ''http://x.com'' then Some \<lparr>protocol = ''http:'', hostname = ''x.com''\<rparr>
      else if url = ''https://sub.github.com''
        then Some \<lparr>protocol = ''https:'', hostname = ''sub.github.com''\<rparr>
      else None)"

text \<open>
  A platform with a regular file at every path, whose text the JSON parser reads as
  \<open>data\<close>.
\<close>

definition example_platform :: "jsval \<Rightarrow> platform" where
  "example_platform data =
     \<lparr>resolvePath = (\<lambda>p. p),
      fsNode = (\<lambda>p. Some (RegularFile (Inr ''data''))),
      jsonParse = (\<lambda>content. Inr data)\<rparr>"


text \<open>
  Segments of five minutes: a warm-up, and a sprint and a cool-down whose \<^verbatim>\<open>Elapsed Time\<close>
  is a parameter. In the workout of the warm-up and the cool-down the consistent value of
  the parameter is 10; in the workout of the three, it is 10 for the sprint and 15 for
  the cool-down.
\<close>

definition warmup_object :: jsval where
  "warmup_object = segment_object (Fin 5) ''Warm-up'' (Fin 5) (Fin 80) [] (Fin 5)"

definition sprint_fields :: "rat \<Rightarrow> (string \<times> jsval) list" where
  "sprint_fields e =
     [(''Time'', JNum (Fin 5)), (''Activity'', JStr ''Sprint''), (''Resistance'', JNum (Fin 5)),
      (''Cadence'', JNum (Fin 80)), (''Stroke instruction'', JStr []),
      (''Elapsed Time'', JNum (Fin e))]"

definition cooldown_fields :: "rat \<Rightarrow> (string \<times> jsval) list" where
  "cooldown_fields e =
     [(''Time'', JNum (Fin 5)), (''Activity'', JStr ''Cool-down''), (''Resistance'', JNum (Fin 5)),
      (''Cadence'', JNum (Fin 80)), (''Stroke instruction'', JStr []),
      (''Elapsed Time'', JNum (Fin e))]"

section \<open>Properties\<close>

subsection \<open>getCurrentSegment\<close>

lemma current_loop_find:
  "current_loop segments e = find (\<lambda>s. js_le e (Elapsed_Time s)) segments"
  by (induction segments) auto

lemma js_gt_not_le: "js_gt a b \<Longrightarrow> \<not> js_le a b"
  by (cases a; cases b) (auto simp: js_gt_def)

text \<open>
  Claim C5. \<open>getCurrentSegment\<close> returns \<^verbatim>\<open>null\<close> on the empty array; on a non-empty array
  it returns the first segment for every negative \<open>elapsedMinutes\<close>; for every other
  \<open>elapsedMinutes\<close> it returns the first segment, in the order of the array, whose
  \<^verbatim>\<open>Elapsed Time\<close> is at least \<open>elapsedMinutes\<close>, and \<^verbatim>\<open>null\<close> when \<open>elapsedMinutes\<close> exceeds
  the \<^verbatim>\<open>Elapsed Time\<close> of every segment. On two segments with \<^verbatim>\<open>Elapsed Time\<close> 5 and 10,
  the input 7 gives the second, 15 gives \<^verbatim>\<open>null\<close> and -1 gives the first.
\<close>

theorem getCurrentSegment_first_reached:
  "getCurrentSegment [] e = None \<and>
   (segments \<noteq> [] \<and> js_lt e (Fin 0) \<longrightarrow> getCurrentSegment segments e = Some (segments ! 0)) \<and>
   (\<not> js_lt e (Fin 0) \<longrightarrow>
      (getCurrentSegment segments e = Some s) =
        (\<exists>i<length segments. segments ! i = s \<and> js_le e (Elapsed_Time s) \<and>
           (\<forall>j<i. \<not> js_le e (Elapsed_Time (segments ! j))))) \<and>
   (\<not> js_lt e (Fin 0) \<and> (\<forall>x \<in> set segments. js_gt e (Elapsed_Time x)) \<longrightarrow>
      getCurrentSegment segments e = None) \<and>
   getCurrentSegment [s1\<lparr>Elapsed_Time := Fin 5\<rparr>, s2\<lparr>Elapsed_Time := Fin 10\<rparr>] (Fin 7)
     = Some (s2\<lparr>Elapsed_Time := Fin 10\<rparr>) \<and>
   getCurrentSegment [s1\<lparr>Elapsed_Time := Fin 5\<rparr>, s2\<lparr>Elapsed_Time := Fin 10\<rparr>] (Fin 15)
     = None \<and>
   getCurrentSegment [s1\<lparr>Elapsed_Time := Fin 5\<rparr>, s2\<lparr>Elapsed_Time := Fin 10\<rparr>] (Fin (- 1))
     = Some (s1\<lparr>Elapsed_Time := Fin 5\<rparr>)"
proof -
  have scan: "\<not> js_lt e (Fin 0) \<Longrightarrow>
      getCurrentSegment segments e = find (\<lambda>x. js_le e (Elapsed_Time x)) segments"
    by (cases segments) (simp_all add: getCurrentSegment_def current_loop_find)
  have first: "\<not> js_lt e (Fin 0) \<Longrightarrow>
      (getCurrentSegment segments e = Some s) =
        (\<exists>i<length segments. segments ! i = s \<and> js_le e (Elapsed_Time s) \<and>
           (\<forall>j<i. \<not> js_le e (Elapsed_Time (segments ! j))))"
    unfolding scan find_Some_iff by auto
  have none: "\<not> js_lt e (Fin 0) \<Longrightarrow> \<forall>x \<in> set segments. js_gt e (Elapsed_Time x) \<Longrightarrow>
      getCurrentSegment segments e = None"
    by (simp add: scan find_None_iff js_gt_not_le)
  show ?thesis
    using first none by (simp add: getCurrentSegment_def)
qed

theorem getCurrentSegment_first_reached_witness:
  "[example_segment 5 5, example_segment 5 10] \<noteq> [] \<and> js_lt (Fin (- 1)) (Fin 0) \<and>
   getCurrentSegment [example_segment 5 5, example_segment 5 10] (Fin (- 1))
     = Some (example_segment 5 5) \<and>
   \<not> js_lt (Fin 15) (Fin 0) \<and>
   js_gt (Fin 15) (Elapsed_Time (example_segment 5 5)) \<and>
   js_gt (Fin 15) (Elapsed_Time (example_segment 5 10)) \<and>
   getCurrentSegment [example_segment 5 5, example_segment 5 10] (Fin 15) = None \<and>
   \<not> js_lt (Fin 7) (Fin 0) \<and>
   (getCurrentSegment [example_segment 5 5, example_segment 5 10] (Fin 7)
      = Some (example_segment 5 10))"
proof -
  have neg: "[example_segment 5 5, example_segment 5 10] \<noteq> [] \<and> js_lt (Fin (- 1)) (Fin 0)"
    by simp
  have past: "\<not> js_lt (Fin 15) (Fin 0) \<and>
      (\<forall>x \<in> set [example_segment 5 5, example_segment 5 10]. js_gt (Fin 15) (Elapsed_Time x))"
    by (simp add: example_segment_def js_gt_def)
  have mid: "\<not> js_lt (Fin 7) (Fin 0)" by simp
  have second: "\<exists>i<length [example_segment 5 5, example_segment 5 10].
      [example_segment 5 5, example_segment 5 10] ! i = example_segment 5 10 \<and>
      js_le (Fin 7) (Elapsed_Time (example_segment 5 10)) \<and>
      (\<forall>j<i. \<not> js_le (Fin 7) (Elapsed_Time ([example_segment 5 5, example_segment 5 10] ! j)))"
    by (rule exI [of _ 1]) (simp add: example_segment_def)
  show ?thesis
    using neg past mid second
      getCurrentSegment_first_reached
        [of "Fin (- 1)" "[example_segment 5 5, example_segment 5 10]"]
      getCurrentSegment_first_reached
        [of "Fin 15" "[example_segment 5 5, example_segment 5 10]"]
      getCurrentSegment_first_reached
        [of "Fin 7" "[example_segment 5 5, example_segment 5 10]" "example_segment 5 10"]
    by simp
qed

subsection \<open>Valid exactly when there is no error\<close>

lemma consistent_new [simp]: "consistent new_result"
  by (simp add: consistent_def new_result_def)

lemma consistent_fail [simp]: "consistent (fail m r)"
  by (simp add: consistent_def fail_def push_errors_def set_invalid_def)

lemma consistent_warn [simp]: "consistent r \<Longrightarrow> consistent (warn m r)"
  by (simp add: consistent_def warn_def push_warnings_def)

lemma consistent_merge_url [simp]:
  "consistent u \<Longrightarrow> consistent r \<Longrightarrow> consistent (merge_url_result p u r)"
  by (auto simp: consistent_def merge_url_result_def push_errors_def push_warnings_def
      set_invalid_def)

lemma consistent_merge [simp]:
  "consistent c \<Longrightarrow> consistent r \<Longrightarrow> consistent (merge_result c r)"
  by (auto simp: consistent_def merge_result_def push_errors_def push_warnings_def
      set_invalid_def)

lemma consistent_merge_indexed [simp]:
  "consistent c \<Longrightarrow> consistent r \<Longrightarrow> consistent (merge_indexed k i c r)"
  by (auto simp: consistent_def merge_indexed_def push_errors_def push_warnings_def
      set_invalid_def)

lemma consistent_validateUrl [simp]: "consistent (validateUrl newURL url allowed)"
  by (simp add: validateUrl_def Let_def split: option.split)

lemma consistent_Title [simp]: "consistent r \<Longrightarrow> consistent (validate_Title v r)"
  by (simp add: validate_Title_def split: jsval.split)

lemma consistent_Subtitle [simp]: "consistent r \<Longrightarrow> consistent (validate_Subtitle v r)"
  by (simp add: validate_Subtitle_def split: jsval.split)

lemma consistent_Image_URL [simp]:
  "consistent r \<Longrightarrow> consistent (validate_Image_URL newURL v r)"
  by (simp add: validate_Image_URL_def split: jsval.split)

lemma consistent_Workout_URL [simp]:
  "consistent r \<Longrightarrow> consistent (validate_Workout_URL newURL v r)"
  by (simp add: validate_Workout_URL_def Let_def split: jsval.split)

lemma consistent_Video_URL [simp]:
  "consistent r \<Longrightarrow> consistent (validate_Video_URL newURL v r)"
  by (simp add: validate_Video_URL_def Let_def split: jsval.split)

lemma consistent_validateWorkout [simp]: "consistent (validateWorkout newURL w)"
  by (simp add: validateWorkout_def Let_def)

lemma consistent_validateVideo [simp]: "consistent (validateVideo newURL v)"
  by (simp add: validateVideo_def Let_def)

lemma consistent_Time [simp]: "consistent r \<Longrightarrow> consistent (validate_Time i v r)"
  by (simp add: validate_Time_def split: jsval.split)

lemma consistent_Activity [simp]: "consistent r \<Longrightarrow> consistent (validate_Activity i v r)"
  by (simp add: validate_Activity_def split: jsval.split)

lemma consistent_Resistance [simp]: "consistent r \<Longrightarrow> consistent (validate_Resistance i v r)"
  by (simp add: validate_Resistance_def split: jsval.split)

lemma consistent_Cadence [simp]: "consistent r \<Longrightarrow> consistent (validate_Cadence i v r)"
  by (simp add: validate_Cadence_def split: jsval.split)

lemma consistent_Stroke [simp]:
  "consistent r \<Longrightarrow> consistent (validate_Stroke_instruction i v r)"
  by (simp add: validate_Stroke_instruction_def split: jsval.split)

lemma consistent_Elapsed [simp]:
  "consistent r \<Longrightarrow> consistent (validate_Elapsed_Time fadd i p tv v r)"
  by (simp add: validate_Elapsed_Time_def Let_def split: jsval.split)

lemma consistent_validateSegment [simp]: "consistent (validateSegment fadd s i p)"
  by (simp add: validateSegment_def Let_def)

lemma consistent_segments_loop:
  "consistent r \<Longrightarrow> validateSegments_loop fadd xs i p r = Inr r' \<Longrightarrow> consistent r'"
proof (induction xs arbitrary: i p r)
  case Nil
  then show ?case by simp
next
  case (Cons a xs)
  have step: "validateSegments_loop fadd xs (Suc i) (next_previousElapsedTime fadd p a)
      (merge_result (validateSegment fadd a (idx i) p) r) = Inr r'"
    using Cons.prems(2) by (simp add: Let_def split: if_splits)
  have "consistent (merge_result (validateSegment fadd a (idx i) p) r)"
    using Cons.prems(1) by simp
  then show ?case using step by (rule Cons.IH)
qed

lemma consistent_warmup [simp]: "consistent r \<Longrightarrow> consistent (check_warmup s r)"
  by (simp add: check_warmup_def split: jsval.split)

lemma consistent_cooldown [simp]: "consistent r \<Longrightarrow> consistent (check_cooldown s r)"
  by (simp add: check_cooldown_def split: jsval.split)

lemma consistent_validateWorkoutDetails:
  "validateWorkoutDetails fadd v = Inr r \<Longrightarrow> consistent r"
  by (auto simp: validateWorkoutDetails_def Let_def
      split: jsval.splits if_splits sum.splits dest!: consistent_segments_loop [rotated])

lemma consistent_workouts_loop:
  "consistent r \<Longrightarrow> consistent (validateWorkouts_loop newURL ws i r)"
  by (induction ws arbitrary: i r) auto

lemma consistent_videos_loop:
  "consistent r \<Longrightarrow> consistent (validateVideos_loop newURL vs i r)"
  by (induction vs arbitrary: i r) auto

lemma consistent_validateWorkoutsList [simp]: "consistent (validateWorkoutsList newURL w)"
  by (simp add: validateWorkoutsList_def Let_def consistent_workouts_loop split: jsval.split)

lemma consistent_validateVideosList [simp]: "consistent (validateVideosList newURL w)"
  by (simp add: validateVideosList_def Let_def consistent_videos_loop split: jsval.split)

lemma segments_loop_returns:
  "(\<exists>r'. validateSegments_loop fadd xs i p r = Inr r') = (JNull \<notin> set xs \<and> JUndefined \<notin> set xs)"
  by (induction xs arbitrary: i p r) (auto simp: Let_def)

lemma validateWorkoutDetails_returns:
  "(\<exists>r. validateWorkoutDetails fadd v = Inr r) =
     (\<forall>xs. v = JArr xs \<longrightarrow> JNull \<notin> set xs \<and> JUndefined \<notin> set xs)"
proof (cases v)
  case (JArr xs)
  show ?thesis
  proof (cases "xs = []")
    case True
    with JArr show ?thesis by (simp add: validateWorkoutDetails_def)
  next
    case False
    have "(\<exists>r. validateWorkoutDetails fadd v = Inr r) =
        (\<exists>r'. validateSegments_loop fadd xs 0 (Fin 0) new_result = Inr r')"
      using JArr False by (auto simp: validateWorkoutDetails_def split: sum.splits)
    then show ?thesis using JArr by (simp add: segments_loop_returns)
  qed
qed (simp_all add: validateWorkoutDetails_def)

subsection \<open>The Resistance check of validateSegment\<close>

lemma segment_object_get [simp]:
  "js_get (segment_object t a r c s e) ''Time'' = JNum t"
  "js_get (segment_object t a r c s e) ''Activity'' = JStr a"
  "js_get (segment_object t a r c s e) ''Resistance'' = JNum r"
  "js_get (segment_object t a r c s e) ''Cadence'' = JNum c"
  "js_get (segment_object t a r c s e) ''Stroke instruction'' = JStr s"
  "js_get (segment_object t a r c s e) ''Elapsed Time'' = JNum e"
  "js_typeof (segment_object t a r c s e) = ''object''"
  "segment_object t a r c s e \<noteq> JNull"
  "segment_object t a r c s e \<noteq> JUndefined"
  by (simp_all add: segment_object_def)

lemma Resistance_error_fail:
  "list_ex is_Resistance_error (errors (fail m r)) =
     (list_ex is_Resistance_error (errors r) \<or> is_Resistance_error m)"
  by (simp add: fail_def push_errors_def set_invalid_def)

lemma Resistance_error_warn [simp]:
  "list_ex is_Resistance_error (errors (warn m r)) = list_ex is_Resistance_error (errors r)"
  by (simp add: warn_def push_warnings_def)

lemma Resistance_error_Time [simp]:
  "list_ex is_Resistance_error (errors (validate_Time i v r)) =
     list_ex is_Resistance_error (errors r)"
  by (simp add: validate_Time_def Resistance_error_fail is_Resistance_error_def
      split: jsval.split)

lemma Resistance_error_Activity [simp]:
  "list_ex is_Resistance_error (errors (validate_Activity i v r)) =
     list_ex is_Resistance_error (errors r)"
  by (simp add: validate_Activity_def Resistance_error_fail is_Resistance_error_def
      split: jsval.split)

lemma Resistance_error_Cadence [simp]:
  "list_ex is_Resistance_error (errors (validate_Cadence i v r)) =
     list_ex is_Resistance_error (errors r)"
  by (simp add: validate_Cadence_def Resistance_error_fail is_Resistance_error_def
      split: jsval.split)

lemma Resistance_error_Stroke [simp]:
  "list_ex is_Resistance_error (errors (validate_Stroke_instruction i v r)) =
     list_ex is_Resistance_error (errors r)"
  by (simp add: validate_Stroke_instruction_def Resistance_error_fail is_Resistance_error_def
      split: jsval.split)

lemma Resistance_error_Elapsed [simp]:
  "list_ex is_Resistance_error (errors (validate_Elapsed_Time fadd i p tv v r)) =
     list_ex is_Resistance_error (errors r)"
  by (simp add: validate_Elapsed_Time_def Resistance_error_fail is_Resistance_error_def
      elapsed_mismatch_def Let_def split: jsval.split)

lemma Resistance_error_Resistance:
  "list_ex is_Resistance_error (errors (validate_Resistance i (JNum (Fin x)) r)) =
     (list_ex is_Resistance_error (errors r) \<or> x < 1 \<or> 20 < x)"
  by (auto simp: validate_Resistance_def Resistance_error_fail is_Resistance_error_def
      minResistance_def maxResistance_def js_gt_def)

lemma valid_fail [simp]: "\<not> valid (fail m r)"
  by (simp add: fail_def push_errors_def set_invalid_def)

lemma valid_warn [simp]: "valid (warn m r) = valid r"
  by (simp add: warn_def push_warnings_def)

lemma invalid_Time: "\<not> valid r \<Longrightarrow> \<not> valid (validate_Time i v r)"
  by (simp add: validate_Time_def split: jsval.split)

lemma invalid_Activity: "\<not> valid r \<Longrightarrow> \<not> valid (validate_Activity i v r)"
  by (simp add: validate_Activity_def split: jsval.split)

lemma invalid_Resistance: "\<not> valid r \<Longrightarrow> \<not> valid (validate_Resistance i v r)"
  by (simp add: validate_Resistance_def split: jsval.split)

lemma invalid_Cadence: "\<not> valid r \<Longrightarrow> \<not> valid (validate_Cadence i v r)"
  by (simp add: validate_Cadence_def split: jsval.split)

lemma invalid_Stroke: "\<not> valid r \<Longrightarrow> \<not> valid (validate_Stroke_instruction i v r)"
  by (simp add: validate_Stroke_instruction_def split: jsval.split)

lemma invalid_Elapsed: "\<not> valid r \<Longrightarrow> \<not> valid (validate_Elapsed_Time fadd i p tv v r)"
  by (simp add: validate_Elapsed_Time_def Let_def split: jsval.split)

lemma out_of_range_Resistance:
  "x < 1 \<or> 20 < x \<Longrightarrow> \<not> valid (validate_Resistance i (JNum (Fin x)) r)"
  by (auto simp: validate_Resistance_def minResistance_def maxResistance_def js_gt_def)

text \<open>
  Claim C9. For each of \<open>validateUrl\<close>, \<open>validateWorkout\<close>, \<open>validateVideo\<close>,
  \<open>validateSegment\<close>, \<open>validateWorkoutsList\<close> and \<open>validateVideosList\<close>, on every input,
  and for \<open>validateWorkoutDetails\<close> on every input on which it returns a result, the
  result has \<open>valid = false\<close> exactly when its list of errors is not empty; so warnings
  alone never make it invalid. \<open>validateWorkoutDetails\<close> returns a result on every input
  except an array with an element \<^verbatim>\<open>null\<close> or \<^verbatim>\<open>undefined\<close>, where its read of
  \<^verbatim>\<open>segment.Time\<close> throws.
\<close>

theorem validators_invalid_iff_errors:
  "(\<not> valid (validateUrl newURL url allowed))
      = (errors (validateUrl newURL url allowed) \<noteq> []) \<and>
   (\<not> valid (validateWorkout newURL workout))
      = (errors (validateWorkout newURL workout) \<noteq> []) \<and>
   (\<not> valid (validateVideo newURL video))
      = (errors (validateVideo newURL video) \<noteq> []) \<and>
   (\<not> valid (validateSegment fadd segment index previousElapsedTime))
      = (errors (validateSegment fadd segment index previousElapsedTime) \<noteq> []) \<and>
   (\<not> valid (validateWorkoutsList newURL workouts))
      = (errors (validateWorkoutsList newURL workouts) \<noteq> []) \<and>
   (\<not> valid (validateVideosList newURL videos))
      = (errors (validateVideosList newURL videos) \<noteq> []) \<and>
   (\<forall>r. validateWorkoutDetails fadd details = Inr r \<longrightarrow> (\<not> valid r) = (errors r \<noteq> [])) \<and>
   (\<exists>r. validateWorkoutDetails fadd details = Inr r)
      = (\<forall>xs. details = JArr xs \<longrightarrow> JNull \<notin> set xs \<and> JUndefined \<notin> set xs)"
proof -
  have iff: "(\<not> valid r) = (errors r \<noteq> [])" if "consistent r" for r
    using that by (simp add: consistent_def)
  have details: "\<forall>r. validateWorkoutDetails fadd details = Inr r \<longrightarrow> (\<not> valid r) = (errors r \<noteq> [])"
    using consistent_validateWorkoutDetails iff by blast
  show ?thesis
    using iff [OF consistent_validateUrl] iff [OF consistent_validateWorkout]
      iff [OF consistent_validateVideo] iff [OF consistent_validateSegment]
      iff [OF consistent_validateWorkoutsList] iff [OF consistent_validateVideosList]
      details validateWorkoutDetails_returns
    by presburger
qed

theorem validators_invalid_iff_errors_witness:
  "validateWorkoutDetails js_add
     (JArr [segment_object (Fin 5) ''Sprint'' (Fin 5) (Fin 80) [] (Fin 5)])
     = Inr \<lparr>valid = True, errors = [],
            warnings =
              [[Txt (''Workout does not start with a Warm-up (starts with '' @ [CHR 0x27]),
                Txt ''Sprint'', Txt ([CHR 0x27] @ '')'')],
               [Txt (''Workout does not end with a Cool-down (ends with '' @ [CHR 0x27]),
                Txt ''Sprint'', Txt ([CHR 0x27] @ '')'')]]\<rparr> \<and>
   (\<not> valid \<lparr>valid = True, errors = [],
            warnings =
              [[Txt (''Workout does not start with a Warm-up (starts with '' @ [CHR 0x27]),
                Txt ''Sprint'', Txt ([CHR 0x27] @ '')'')],
               [Txt (''Workout does not end with a Cool-down (ends with '' @ [CHR 0x27]),
                Txt ''Sprint'', Txt ([CHR 0x27] @ '')'')]]\<rparr>)
     = (errors \<lparr>valid = True, errors = [],
            warnings =
              [[Txt (''Workout does not start with a Warm-up (starts with '' @ [CHR 0x27]),
                Txt ''Sprint'', Txt ([CHR 0x27] @ '')'')],
               [Txt (''Workout does not end with a Cool-down (ends with '' @ [CHR 0x27]),
                Txt ''Sprint'', Txt ([CHR 0x27] @ '')'')]]\<rparr> \<noteq> [])"
proof -
  have seg: "validateSegment js_add (segment_object (Fin 5) ''Sprint'' (Fin 5) (Fin 80) [] (Fin 5))
      (idx 0) (Fin 0) = new_result"
    by (simp add: validateSegment_def validate_Time_def validate_Activity_def
        validate_Resistance_def validate_Cadence_def validate_Stroke_instruction_def
        validate_Elapsed_Time_def Let_def minTime_def maxTime_def minResistance_def
        maxResistance_def minCadence_def maxCadence_def maxElapsedTime_def js_gt_def js_eq_def
        js_trim_def js_isSpace_def VALID_ACTIVITIES_def idx_def)
  have run: "validateWorkoutDetails js_add
     (JArr [segment_object (Fin 5) ''Sprint'' (Fin 5) (Fin 80) [] (Fin 5)])
     = Inr \<lparr>valid = True, errors = [],
            warnings =
              [[Txt (''Workout does not start with a Warm-up (starts with '' @ [CHR 0x27]),
                Txt ''Sprint'', Txt ([CHR 0x27] @ '')'')],
               [Txt (''Workout does not end with a Cool-down (ends with '' @ [CHR 0x27]),
                Txt ''Sprint'', Txt ([CHR 0x27] @ '')'')]]\<rparr>"
    by (simp add: validateWorkoutDetails_def Let_def seg merge_result_def push_errors_def
        push_warnings_def new_result_def check_warmup_def check_cooldown_def warn_def)
  show ?thesis
    using run
      validators_invalid_iff_errors
        [where details = "JArr [segment_object (Fin 5) ''Sprint'' (Fin 5) (Fin 80) [] (Fin 5)]"]
    by simp
qed

subsection \<open>The Elapsed Time check of validateSegment\<close>

text \<open>
  Claim C1, at the input where the code departs from it. The segment has \<^verbatim>\<open>Time\<close> 5 and
  \<^verbatim>\<open>Elapsed Time\<close> 130, both finite and the second not negative, and the previous elapsed
  time is 0, so the expected value is 5. The result has the warning for an
  \<^verbatim>\<open>Elapsed Time\<close> above 120, but it is valid and has no error: the consistency check is
  the \<^verbatim>\<open>else if\<close> branch after the branch of the warning, and is not reached.
\<close>

theorem validateSegment_elapsed_above_120_unchecked:
  "validateSegment js_add (segment_object (Fin 5) ''Warm-up'' (Fin 5) (Fin 80) [] (Fin 130))
     (idx 0) (Fin 0)
     = \<lparr>valid = True, errors = [],
        warnings = [[Txt ''Segment '', Num (idx 0), Txt '': Elapsed Time '', Num (Fin 130),
                     Txt '' exceeds typical workout duration'']]\<rparr> \<and>
   \<not> js_eq (Fin 130) (js_add (Fin 0) (Fin 5))"
  by (simp add: validateSegment_def validate_Time_def validate_Activity_def
      validate_Resistance_def validate_Cadence_def validate_Stroke_instruction_def
      validate_Elapsed_Time_def Let_def minTime_def maxTime_def minResistance_def
      maxResistance_def minCadence_def maxCadence_def maxElapsedTime_def js_gt_def js_eq_def
      js_trim_def js_isSpace_def VALID_ACTIVITIES_def idx_def new_result_def warn_def
      push_warnings_def)

theorem validateSegment_elapsed_above_120_unchecked_witness:
  "valid (validateSegment js_add (segment_object (Fin 5) ''Warm-up'' (Fin 5) (Fin 80) [] (Fin 130))
            (idx 0) (Fin 0)) \<and>
   errors (validateSegment js_add (segment_object (Fin 5) ''Warm-up'' (Fin 5) (Fin 80) [] (Fin 130))
             (idx 0) (Fin 0)) = []"
  using validateSegment_elapsed_above_120_unchecked by simp

subsection \<open>When each block of validateSegment keeps the result valid\<close>

lemma isFinite_iff: "isFinite x = (\<exists>t. x = Fin t)"
  by (cases x) simp_all

lemma valid_Time:
  "valid (validate_Time i v r) = (valid r \<and> (\<exists>t. v = JNum (Fin t) \<and> 1 \<le> t))"
proof (cases v)
  case (JNum n)
  then show ?thesis
    by (cases n) (auto simp: validate_Time_def minTime_def)
qed (simp_all add: validate_Time_def)

lemma valid_Activity:
  "valid (validate_Activity i v r) = (valid r \<and> (\<exists>a. v = JStr a \<and> js_trim a \<noteq> []))"
  by (cases v) (simp_all add: validate_Activity_def)

lemma valid_Resistance:
  "valid (validate_Resistance i v r)
     = (valid r \<and> (\<exists>x. v = JNum (Fin x) \<and> 1 \<le> x \<and> x \<le> 20))"
proof (cases v)
  case (JNum n)
  then show ?thesis
    by (cases n) (auto simp: validate_Resistance_def minResistance_def maxResistance_def js_gt_def)
qed (simp_all add: validate_Resistance_def)

lemma valid_Cadence:
  "valid (validate_Cadence i v r)
     = (valid r \<and> (\<exists>x. v = JNum (Fin x) \<and> 30 \<le> x \<and> x \<le> 150))"
proof (cases v)
  case (JNum n)
  then show ?thesis
    by (cases n) (auto simp: validate_Cadence_def minCadence_def maxCadence_def js_gt_def)
qed (simp_all add: validate_Cadence_def)

lemma valid_Stroke:
  "valid (validate_Stroke_instruction i v r) = (valid r \<and> (\<exists>s. v = JStr s))"
  by (cases v) (simp_all add: validate_Stroke_instruction_def)

lemma valid_Elapsed:
  "valid (validate_Elapsed_Time fadd i p tv v r) = (valid r \<and> Elapsed_Time_passes fadd p tv v)"
proof (cases v)
  case (JNum n)
  show ?thesis
  proof (cases n)
    case (Fin e)
    show ?thesis
    proof (cases tv)
      case (JNum tn)
      with \<open>v = JNum n\<close> Fin show ?thesis
        by (cases tn)
          (auto simp: validate_Elapsed_Time_def Elapsed_Time_passes_def maxElapsedTime_def
            js_gt_def Let_def)
    qed (use \<open>v = JNum n\<close> Fin in
          \<open>auto simp: validate_Elapsed_Time_def Elapsed_Time_passes_def maxElapsedTime_def
            js_gt_def\<close>)
  qed (use JNum in \<open>simp_all add: validate_Elapsed_Time_def Elapsed_Time_passes_def\<close>)
qed (simp_all add: validate_Elapsed_Time_def Elapsed_Time_passes_def)

lemma valid_new_result [simp]: "valid new_result"
  by (simp add: new_result_def)

lemma valid_validateSegment_object:
  "valid (validateSegment fadd (segment_object t a x c s e) i p)
     = ((\<exists>t'. t = Fin t' \<and> 1 \<le> t') \<and> js_trim a \<noteq> [] \<and>
        (\<exists>x'. x = Fin x' \<and> 1 \<le> x' \<and> x' \<le> 20) \<and>
        (\<exists>c'. c = Fin c' \<and> 30 \<le> c' \<and> c' \<le> 150) \<and>
        Elapsed_Time_passes fadd p (JNum t) (JNum e))"
  by (simp add: validateSegment_def Let_def valid_Time valid_Activity valid_Resistance
      valid_Cadence valid_Stroke valid_Elapsed)

lemma trim_Warm_up: "js_trim ''Warm-up'' \<noteq> []"
  by (simp add: js_trim_def js_isSpace_def)

text \<open>
  Claim C7. For a segment object whose \<^verbatim>\<open>Resistance\<close> is the finite number \<open>x\<close>,
  \<open>validateSegment\<close> reports a \<^verbatim>\<open>Resistance\<close> error exactly when \<open>x < 1\<close> or \<open>x > 20\<close>, and
  then the result is invalid. On a segment whose other fields pass, the result is valid
  exactly when \<open>1 \<le> x \<le> 20\<close>: 21 fails, 20 passes, 0 fails, 1 passes (the segment has
  \<^verbatim>\<open>Time\<close> 5 and \<^verbatim>\<open>Elapsed Time\<close> 5 after 0, a sum that is exact).
\<close>

theorem validateSegment_Resistance_range:
  assumes "map_of fs ''Resistance'' = Some (JNum (Fin x))"
  shows "list_ex is_Resistance_error (errors (validateSegment fadd (JObj fs) index prev))
           = (x < 1 \<or> 20 < x) \<and>
         (x < 1 \<or> 20 < x \<longrightarrow> \<not> valid (validateSegment fadd (JObj fs) index prev)) \<and>
         valid (validateSegment js_add
                  (segment_object (Fin 5) ''Warm-up'' (Fin y) (Fin 80) [] (Fin 5)) (idx 0) (Fin 0))
           = (1 \<le> y \<and> y \<le> 20)"
proof -
  have get: "js_get (JObj fs) ''Resistance'' = JNum (Fin x)"
    using assms by simp
  have none: "\<not> list_ex is_Resistance_error (errors new_result)"
    by (simp add: new_result_def)
  have "list_ex is_Resistance_error (errors (validateSegment fadd (JObj fs) index prev))
           = (x < 1 \<or> 20 < x)"
    using none by (simp add: validateSegment_def Let_def get Resistance_error_Resistance
        del: js_get.simps)
  moreover have "\<not> valid (validateSegment fadd (JObj fs) index prev)" if "x < 1 \<or> 20 < x"
    using that
    by (simp add: validateSegment_def Let_def get invalid_Cadence invalid_Stroke invalid_Elapsed
        out_of_range_Resistance del: js_get.simps)
  moreover have "valid (validateSegment js_add
        (segment_object (Fin 5) ''Warm-up'' (Fin y) (Fin 80) [] (Fin 5)) (idx 0) (Fin 0))
      = (1 \<le> y \<and> y \<le> 20)"
    by (simp add: valid_validateSegment_object trim_Warm_up Elapsed_Time_passes_def js_eq_def)
  ultimately show ?thesis by blast
qed

theorem validateSegment_Resistance_range_witness:
  "map_of [(''Resistance'', JNum (Fin 21))] ''Resistance'' = Some (JNum (Fin 21)) \<and>
   list_ex is_Resistance_error
     (errors (validateSegment js_add (JObj [(''Resistance'', JNum (Fin 21))]) (idx 0) (Fin 0))) \<and>
   \<not> valid (validateSegment js_add (JObj [(''Resistance'', JNum (Fin 21))]) (idx 0) (Fin 0)) \<and>
   \<not> valid (validateSegment js_add
              (segment_object (Fin 5) ''Warm-up'' (Fin 21) (Fin 80) [] (Fin 5)) (idx 0) (Fin 0)) \<and>
   valid (validateSegment js_add
            (segment_object (Fin 5) ''Warm-up'' (Fin 20) (Fin 80) [] (Fin 5)) (idx 0) (Fin 0)) \<and>
   \<not> valid (validateSegment js_add
              (segment_object (Fin 5) ''Warm-up'' (Fin 0) (Fin 80) [] (Fin 5)) (idx 0) (Fin 0)) \<and>
   valid (validateSegment js_add
            (segment_object (Fin 5) ''Warm-up'' (Fin 1) (Fin 80) [] (Fin 5)) (idx 0) (Fin 0))"
proof -
  have field: "map_of [(''Resistance'', JNum (Fin 21))] ''Resistance'' = Some (JNum (Fin 21))"
    by simp
  show ?thesis
    using field
      validateSegment_Resistance_range [OF field, of js_add "idx 0" "Fin 0" 21]
      validateSegment_Resistance_range [OF field, of js_add "idx 0" "Fin 0" 20]
      validateSegment_Resistance_range [OF field, of js_add "idx 0" "Fin 0" 0]
      validateSegment_Resistance_range [OF field, of js_add "idx 0" "Fin 0" 1]
    by simp
qed

subsection \<open>validateUrl\<close>

lemma js_endsWith_iff: "js_endsWith s suf = (\<exists>pre. s = pre @ suf)"
proof
  assume "js_endsWith s suf"
  then have "s = take (length s - length suf) s @ suf"
    by (metis append_take_drop_id js_endsWith_def)
  then show "\<exists>pre. s = pre @ suf" ..
next
  assume "\<exists>pre. s = pre @ suf"
  then show "js_endsWith s suf" by (auto simp: js_endsWith_def)
qed

text \<open>
  Claim C6. \<open>validateUrl\<close> fails with one error on an empty or blank string, on a string
  that the parser rejects, and on a URL whose scheme is neither \<^verbatim>\<open>http\<close> nor \<^verbatim>\<open>https\<close>.
  Otherwise it warns exactly when the scheme is \<^verbatim>\<open>http\<close>, and it is valid unless a
  non-empty list of allowed domains is given and the lower-cased host name neither equals
  a lower-cased allowed domain nor ends with a dot followed by one. With the platform's
  parse of the three URLs: \<^verbatim>\<open>ftp://x.com\<close> fails with the protocol error,
  \<^verbatim>\<open>http://x.com\<close> succeeds with the warning, and \<^verbatim>\<open>https://sub.github.com\<close> with the list
  \<^verbatim>\<open>["github.com"]\<close> succeeds.
\<close>

theorem validateUrl_checks:
  "(url = [] \<or> js_trim url = [] \<longrightarrow>
      validateUrl newURL url allowed
        = \<lparr>valid = False, errors = [[Txt ''URL is empty'']], warnings = []\<rparr>) \<and>
   (url \<noteq> [] \<and> js_trim url \<noteq> [] \<and> newURL url = None \<longrightarrow>
      validateUrl newURL url allowed
        = \<lparr>valid = False, errors = [[Txt ''Invalid URL format: '', Txt url]], warnings = []\<rparr>) \<and>
   (url \<noteq> [] \<and> js_trim url \<noteq> [] \<and> newURL url = Some u \<and>
    protocol u \<noteq> ''http:'' \<and> protocol u \<noteq> ''https:'' \<longrightarrow>
      validateUrl newURL url allowed
        = \<lparr>valid = False,
           errors = [[Txt ''Invalid protocol: '', Txt (protocol u),
                      Txt '' (expected http or https)'']],
           warnings = []\<rparr>) \<and>
   (url \<noteq> [] \<and> js_trim url \<noteq> [] \<and> newURL url = Some u \<and>
    (protocol u = ''http:'' \<or> protocol u = ''https:'') \<longrightarrow>
      warnings (validateUrl newURL url allowed)
        = (if protocol u = ''http:'' then [[Txt ''URL uses insecure HTTP protocol'']] else []) \<and>
      valid (validateUrl newURL url allowed)
        = (case allowed of
             None \<Rightarrow> True
           | Some ds \<Rightarrow>
               ds = [] \<or>
               (\<exists>d \<in> set ds.
                  js_toLowerCase (hostname u) = js_toLowerCase d \<or>
                  (\<exists>pre. js_toLowerCase (hostname u) = pre @ ''.'' @ js_toLowerCase d)))) \<and>
   (newURL ''ftp://x.com'' = Some \<lparr>protocol = ''ftp:'', hostname = ''x.com''\<rparr> \<longrightarrow>
      validateUrl newURL ''ftp://x.com'' None
        = \<lparr>valid = False,
           errors = [[Txt ''Invalid protocol: '', Txt ''ftp:'', Txt '' (expected http or https)'']],
           warnings = []\<rparr>) \<and>
   (newURL ''http://x.com'' = Some \<lparr>protocol = ''http:'', hostname = ''x.com''\<rparr> \<longrightarrow>
      validateUrl newURL ''http://x.com'' None
        = \<lparr>valid = True, errors = [],
           warnings = [[Txt ''URL uses insecure HTTP protocol'']]\<rparr>) \<and>
   (newURL ''https://sub.github.com''
      = Some \<lparr>protocol = ''https:'', hostname = ''sub.github.com''\<rparr> \<longrightarrow>
      validateUrl newURL ''https://sub.github.com'' (Some [''github.com''])
        = \<lparr>valid = True, errors = [], warnings = []\<rparr>)"
proof -
  have blank: "validateUrl newURL url allowed
        = \<lparr>valid = False, errors = [[Txt ''URL is empty'']], warnings = []\<rparr>"
    if "url = [] \<or> js_trim url = []"
    using that
    by (auto simp: validateUrl_def fail_def push_errors_def set_invalid_def new_result_def)
  have unparsed: "validateUrl newURL url allowed
        = \<lparr>valid = False, errors = [[Txt ''Invalid URL format: '', Txt url]], warnings = []\<rparr>"
    if "url \<noteq> []" "js_trim url \<noteq> []" "newURL url = None"
    using that
    by (simp add: validateUrl_def fail_def push_errors_def set_invalid_def new_result_def)
  have scheme: "validateUrl newURL url allowed
        = \<lparr>valid = False,
           errors = [[Txt ''Invalid protocol: '', Txt (protocol u),
                      Txt '' (expected http or https)'']],
           warnings = []\<rparr>"
    if "url \<noteq> []" "js_trim url \<noteq> []" "newURL url = Some u"
       "protocol u \<noteq> ''http:''" "protocol u \<noteq> ''https:''"
    using that
    by (simp add: validateUrl_def fail_def push_errors_def set_invalid_def new_result_def)
  have warns: "warnings (validateUrl newURL url allowed)
        = (if protocol u = ''http:'' then [[Txt ''URL uses insecure HTTP protocol'']] else [])"
    if "url \<noteq> []" "js_trim url \<noteq> []" "newURL url = Some u"
       "protocol u = ''http:'' \<or> protocol u = ''https:''"
    using that
    by (auto simp: validateUrl_def fail_def warn_def push_warnings_def push_errors_def
        set_invalid_def new_result_def Let_def split: option.split)
  have domains: "valid (validateUrl newURL url allowed)
        = (case allowed of
             None \<Rightarrow> True
           | Some ds \<Rightarrow>
               ds = [] \<or>
               (\<exists>d \<in> set ds.
                  js_toLowerCase (hostname u) = js_toLowerCase d \<or>
                  (\<exists>pre. js_toLowerCase (hostname u) = pre @ ''.'' @ js_toLowerCase d)))"
    if "url \<noteq> []" "js_trim url \<noteq> []" "newURL url = Some u"
       "protocol u = ''http:'' \<or> protocol u = ''https:''"
    using that
    by (auto simp: validateUrl_def fail_def warn_def push_warnings_def push_errors_def
        set_invalid_def new_result_def Let_def list_ex_iff js_endsWith_iff split: option.split)
  have ftp: "validateUrl newURL ''ftp://x.com'' None
        = \<lparr>valid = False,
           errors = [[Txt ''Invalid protocol: '', Txt ''ftp:'', Txt '' (expected http or https)'']],
           warnings = []\<rparr>"
    if "newURL ''ftp://x.com'' = Some \<lparr>protocol = ''ftp:'', hostname = ''x.com''\<rparr>"
    using that
    by (simp add: validateUrl_def fail_def push_errors_def set_invalid_def new_result_def
        js_trim_def js_isSpace_def)
  have http: "validateUrl newURL ''http://x.com'' None
        = \<lparr>valid = True, errors = [],
           warnings = [[Txt ''URL uses insecure HTTP protocol'']]\<rparr>"
    if "newURL ''http://x.com'' = Some \<lparr>protocol = ''http:'', hostname = ''x.com''\<rparr>"
    using that
    by (simp add: validateUrl_def warn_def push_warnings_def new_result_def
        js_trim_def js_isSpace_def)
  have sub: "validateUrl newURL ''https://sub.github.com'' (Some [''github.com''])
        = \<lparr>valid = True, errors = [], warnings = []\<rparr>"
    if "newURL ''https://sub.github.com''
      = Some \<lparr>protocol = ''https:'', hostname = ''sub.github.com''\<rparr>"
    using that
    by (simp add: validateUrl_def new_result_def js_trim_def js_isSpace_def Let_def
        js_toLowerCase_def js_lowerChar_def js_endsWith_def)
  show ?thesis
    using blank unparsed scheme warns domains ftp http sub by blast
qed

theorem validateUrl_checks_witness:
  "js_trim ''  '' = [] \<and>
   validateUrl example_newURL ''  '' None
     = \<lparr>valid = False, errors = [[Txt ''URL is empty'']], warnings = []\<rparr> \<and>
   js_trim ''not a url'' \<noteq> [] \<and> example_newURL ''not a url'' = None \<and>
   validateUrl example_newURL ''not a url'' None
     = \<lparr>valid = False, errors = [[Txt ''Invalid URL format: '', Txt ''not a url'']],
        warnings = []\<rparr> \<and>
   example_newURL ''ftp://x.com'' = Some \<lparr>protocol = ''ftp:'', hostname = ''x.com''\<rparr> \<and>
   validateUrl example_newURL ''ftp://x.com'' None
     = \<lparr>valid = False,
        errors = [[Txt ''Invalid protocol: '', Txt ''ftp:'', Txt '' (expected http or https)'']],
        warnings = []\<rparr> \<and>
   example_newURL ''http://x.com'' = Some \<lparr>protocol = ''http:'', hostname = ''x.com''\<rparr> \<and>
   validateUrl example_newURL ''http://x.com'' None
     = \<lparr>valid = True, errors = [], warnings = [[Txt ''URL uses insecure HTTP protocol'']]\<rparr> \<and>
   valid (validateUrl example_newURL ''http://x.com'' (Some [''x.com''])) \<and>
   example_newURL ''https://sub.github.com''
     = Some \<lparr>protocol = ''https:'', hostname = ''sub.github.com''\<rparr> \<and>
   validateUrl example_newURL ''https://sub.github.com'' (Some [''github.com''])
     = \<lparr>valid = True, errors = [], warnings = []\<rparr>"
proof -
  have blank: "js_trim ''  '' = []"
    by (simp add: js_trim_def js_isSpace_def)
  have plain: "''not a url'' \<noteq> [] \<and> js_trim ''not a url'' \<noteq> [] \<and>
      example_newURL ''not a url'' = None"
    by (simp add: js_trim_def js_isSpace_def example_newURL_def)
  have ftp: "example_newURL ''ftp://x.com''
      = Some \<lparr>protocol = ''ftp:'', hostname = ''x.com''\<rparr>"
    by (simp add: example_newURL_def)
  have http: "example_newURL ''http://x.com''
      = Some \<lparr>protocol = ''http:'', hostname = ''x.com''\<rparr>"
    by (simp add: example_newURL_def)
  have http_text: "''http://x.com'' \<noteq> [] \<and> js_trim ''http://x.com'' \<noteq> []"
    by (simp add: js_trim_def js_isSpace_def)
  have sub: "example_newURL ''https://sub.github.com''
      = Some \<lparr>protocol = ''https:'', hostname = ''sub.github.com''\<rparr>"
    by (simp add: example_newURL_def)
  note inst = validateUrl_checks [where newURL = example_newURL]
  show ?thesis
    using blank plain ftp http http_text sub
      inst [where url = "''  ''" and allowed = None]
      inst [where url = "''not a url''" and allowed = None]
      inst [where url = "''http://x.com''" and allowed = "Some [''x.com'']"
              and u = "\<lparr>protocol = ''http:'', hostname = ''x.com''\<rparr>"]
    by simp
qed

subsection \<open>The checks of the two loaders on one element\<close>

lemma load_segment_Inr:
  "(load_segment fp i item = Inr seg) =
     (js_typeof item = ''object'' \<and> item \<noteq> JNull \<and>
      js_get item ''Time'' = JNum (Time seg) \<and> isFinite (Time seg) \<and> \<not> js_le (Time seg) (Fin 0) \<and>
      js_get item ''Activity'' = JStr (Activity seg) \<and>
      js_get item ''Resistance'' = JNum (Resistance seg) \<and> isFinite (Resistance seg) \<and>
      \<not> js_lt (Resistance seg) (Fin 0) \<and> \<not> js_gt (Resistance seg) (Fin 20) \<and>
      js_get item ''Cadence'' = JNum (Cadence seg) \<and> isFinite (Cadence seg) \<and>
      \<not> js_lt (Cadence seg) (Fin 0) \<and> \<not> js_gt (Cadence seg) (Fin 150) \<and>
      js_get item ''Stroke instruction'' = JStr (Stroke_instruction seg) \<and>
      js_get item ''Elapsed Time'' = JNum (Elapsed_Time seg) \<and> isFinite (Elapsed_Time seg) \<and>
      \<not> js_lt (Elapsed_Time seg) (Fin 0))"
  unfolding load_segment_def
  by (cases seg) (auto split: jsval.splits simp del: js_get.simps js_typeof.simps)







subsection \<open>loadWorkoutDetails\<close>

lemma loads_Time: "field_loads ''Time'' v = (\<exists>t. v = JNum (Fin t) \<and> 0 < t)"
  by (auto simp: field_loads_def split: jsval.splits jsnum.splits)

lemma loads_Activity: "field_loads ''Activity'' v = (\<exists>a. v = JStr a)"
  by (auto simp: field_loads_def split: jsval.splits)

lemma loads_Resistance:
  "field_loads ''Resistance'' v = (\<exists>r. v = JNum (Fin r) \<and> 0 \<le> r \<and> r \<le> 20)"
  by (auto simp: field_loads_def split: jsval.splits jsnum.splits)

lemma loads_Cadence:
  "field_loads ''Cadence'' v = (\<exists>c. v = JNum (Fin c) \<and> 0 \<le> c \<and> c \<le> 150)"
  by (auto simp: field_loads_def split: jsval.splits jsnum.splits)

lemma loads_Stroke: "field_loads ''Stroke instruction'' v = (\<exists>s. v = JStr s)"
  by (auto simp: field_loads_def split: jsval.splits)

lemma loads_Elapsed: "field_loads ''Elapsed Time'' v = (\<exists>e. v = JNum (Fin e) \<and> 0 \<le> e)"
  by (auto simp: field_loads_def split: jsval.splits jsnum.splits)

lemmas loads_simps =
  loads_Time loads_Activity loads_Resistance loads_Cadence loads_Stroke loads_Elapsed

lemma load_accepts_iff:
  "load_accepts item = (\<exists>seg. load_segment fp i item = Inr seg)"
proof
  assume "load_accepts item"
  then obtain t a r c s e where obj: "js_typeof item = ''object''" "item \<noteq> JNull"
    and f: "js_get item ''Time'' = JNum (Fin t)" "0 < t"
      "js_get item ''Activity'' = JStr a"
      "js_get item ''Resistance'' = JNum (Fin r)" "0 \<le> r" "r \<le> 20"
      "js_get item ''Cadence'' = JNum (Fin c)" "0 \<le> c" "c \<le> 150"
      "js_get item ''Stroke instruction'' = JStr s"
      "js_get item ''Elapsed Time'' = JNum (Fin e)" "0 \<le> e"
    unfolding load_accepts_def required_fields_def
    by (auto simp: loads_simps simp del: js_get.simps js_typeof.simps)
  have "load_segment fp i item
      = Inr \<lparr>Time = Fin t, Activity = a, Resistance = Fin r, Cadence = Fin c,
             Stroke_instruction = s, Elapsed_Time = Fin e\<rparr>"
    unfolding load_segment_Inr using obj f by (simp add: js_gt_def)
  then show "\<exists>seg. load_segment fp i item = Inr seg" ..
next
  assume "\<exists>seg. load_segment fp i item = Inr seg"
  then obtain seg where "load_segment fp i item = Inr seg" ..
  then have c: "js_typeof item = ''object''" "item \<noteq> JNull"
      "js_get item ''Time'' = JNum (Time seg)" "isFinite (Time seg)"
      "\<not> js_le (Time seg) (Fin 0)"
      "js_get item ''Activity'' = JStr (Activity seg)"
      "js_get item ''Resistance'' = JNum (Resistance seg)" "isFinite (Resistance seg)"
      "\<not> js_lt (Resistance seg) (Fin 0)" "\<not> js_gt (Resistance seg) (Fin 20)"
      "js_get item ''Cadence'' = JNum (Cadence seg)" "isFinite (Cadence seg)"
      "\<not> js_lt (Cadence seg) (Fin 0)" "\<not> js_gt (Cadence seg) (Fin 150)"
      "js_get item ''Stroke instruction'' = JStr (Stroke_instruction seg)"
      "js_get item ''Elapsed Time'' = JNum (Elapsed_Time seg)" "isFinite (Elapsed_Time seg)"
      "\<not> js_lt (Elapsed_Time seg) (Fin 0)"
    unfolding load_segment_Inr by simp_all
  have t: "\<exists>t. Time seg = Fin t \<and> 0 < t"
    using c(4,5) by (cases "Time seg") simp_all
  have r: "\<exists>r. Resistance seg = Fin r \<and> 0 \<le> r \<and> r \<le> 20"
    using c(8,9,10) by (cases "Resistance seg") (simp_all add: js_gt_def)
  have cd: "\<exists>x. Cadence seg = Fin x \<and> 0 \<le> x \<and> x \<le> 150"
    using c(12,13,14) by (cases "Cadence seg") (simp_all add: js_gt_def)
  have e: "\<exists>e. Elapsed_Time seg = Fin e \<and> 0 \<le> e"
    using c(17,18) by (cases "Elapsed_Time seg") simp_all
  show "load_accepts item"
    unfolding load_accepts_def required_fields_def
    using c(1,2,3,6,7,11,15,16) t r cd e
    by (simp add: loads_simps del: js_get.simps js_typeof.simps)
qed

lemma loaded_fields:
  assumes "load_segment fp i item = Inr seg"
  shows "list_all (\<lambda>f. js_get (segment_to_js seg) f = js_get item f) required_fields"
  using assms unfolding load_segment_Inr required_fields_def segment_to_js_def
  by simp

lemma names_field_messages:
  "names_field ''Time'' [Txt a, n, Txt '' has invalid 'Time' field: expected a number, got '', x]"
  "names_field ''Activity'' [Txt a, n, Txt '' has invalid 'Activity' field: expected a string, got '', x]"
  "names_field ''Resistance'' [Txt a, n, Txt '' has invalid 'Resistance' field: expected a number, got '', x]"
  "names_field ''Cadence'' [Txt a, n, Txt '' has invalid 'Cadence' field: expected a number, got '', x]"
  "names_field ''Stroke instruction'' [Txt a, n, Txt '' has invalid 'Stroke instruction' field: expected a string, got '', x]"
  "names_field ''Elapsed Time'' [Txt a, n, Txt '' has invalid 'Elapsed Time' field: expected a number, got '', x]"
  "names_field ''Time'' [Txt a, n, Txt '' has invalid 'Time' value: '', y, z]"
  "names_field ''Resistance'' [Txt a, n, Txt '' has invalid 'Resistance' value: '', y, z]"
  "names_field ''Cadence'' [Txt a, n, Txt '' has invalid 'Cadence' value: '', y, z]"
  "names_field ''Elapsed Time'' [Txt a, n, Txt '' has invalid 'Elapsed Time' value: '', y, z]"
  by (simp_all add: names_field_def)

lemma not_object_error:
  "js_typeof item \<noteq> ''object'' \<or> item = JNull \<Longrightarrow>
   load_segment fp i item
     = Inl (DataLoadError [Txt ''Segment at index '', Num (idx i), Txt '' is not an object'']
              fp None)"
  by (simp add: load_segment_def)

lemma bad_Time:
  assumes "js_typeof item = ''object''" "item \<noteq> JNull"
    and "\<not> field_loads ''Time'' (js_get item ''Time'')"
  shows "\<exists>m. load_segment fp i item = Inl (DataLoadError m fp None) \<and>
             Num (idx i) \<in> set m \<and> names_field ''Time'' m"
proof (cases "js_get item ''Time''")
  case (JNum n)
  with assms show ?thesis
    by (cases n) (simp_all add: load_segment_def loads_Time names_field_messages)
qed (use assms in \<open>simp_all add: load_segment_def names_field_messages\<close>)

lemma bad_Activity:
  assumes "js_typeof item = ''object''" "item \<noteq> JNull"
    and "field_loads ''Time'' (js_get item ''Time'')"
    and "\<not> field_loads ''Activity'' (js_get item ''Activity'')"
  shows "\<exists>m. load_segment fp i item = Inl (DataLoadError m fp None) \<and>
             Num (idx i) \<in> set m \<and> names_field ''Activity'' m"
proof -
  from assms(3) obtain t where t: "js_get item ''Time'' = JNum (Fin t)" "0 < t"
    unfolding loads_Time by blast
  show ?thesis
    using assms(1,2,4) t
    by (cases "js_get item ''Activity''")
       (simp_all add: load_segment_def loads_Activity names_field_messages)
qed

lemma bad_Resistance:
  assumes "js_typeof item = ''object''" "item \<noteq> JNull"
    and "field_loads ''Time'' (js_get item ''Time'')"
    and "field_loads ''Activity'' (js_get item ''Activity'')"
    and "\<not> field_loads ''Resistance'' (js_get item ''Resistance'')"
  shows "\<exists>m. load_segment fp i item = Inl (DataLoadError m fp None) \<and>
             Num (idx i) \<in> set m \<and> names_field ''Resistance'' m"
proof -
  from assms(3) obtain t where t: "js_get item ''Time'' = JNum (Fin t)" "0 < t"
    unfolding loads_Time by blast
  from assms(4) obtain a where a: "js_get item ''Activity'' = JStr a"
    unfolding loads_Activity by blast
  show ?thesis
  proof (cases "js_get item ''Resistance''")
    case (JNum n)
    with assms(1,2,5) t a show ?thesis
      by (cases n)
         (auto simp: load_segment_def loads_Resistance names_field_messages js_gt_def)
  qed (use assms(1,2) t a in \<open>simp_all add: load_segment_def names_field_messages\<close>)
qed

lemma bad_Cadence:
  assumes "js_typeof item = ''object''" "item \<noteq> JNull"
    and "field_loads ''Time'' (js_get item ''Time'')"
    and "field_loads ''Activity'' (js_get item ''Activity'')"
    and "field_loads ''Resistance'' (js_get item ''Resistance'')"
    and "\<not> field_loads ''Cadence'' (js_get item ''Cadence'')"
  shows "\<exists>m. load_segment fp i item = Inl (DataLoadError m fp None) \<and>
             Num (idx i) \<in> set m \<and> names_field ''Cadence'' m"
proof -
  from assms(3) obtain t where t: "js_get item ''Time'' = JNum (Fin t)" "0 < t"
    unfolding loads_Time by blast
  from assms(4) obtain a where a: "js_get item ''Activity'' = JStr a"
    unfolding loads_Activity by blast
  from assms(5) obtain r where r: "js_get item ''Resistance'' = JNum (Fin r)" "0 \<le> r" "r \<le> 20"
    unfolding loads_Resistance by blast
  show ?thesis
  proof (cases "js_get item ''Cadence''")
    case (JNum n)
    with assms(1,2,6) t a r show ?thesis
      by (cases n)
         (auto simp: load_segment_def loads_Cadence names_field_messages js_gt_def)
  qed (use assms(1,2) t a r in
        \<open>simp_all add: load_segment_def names_field_messages js_gt_def\<close>)
qed

lemma bad_Stroke:
  assumes "js_typeof item = ''object''" "item \<noteq> JNull"
    and "field_loads ''Time'' (js_get item ''Time'')"
    and "field_loads ''Activity'' (js_get item ''Activity'')"
    and "field_loads ''Resistance'' (js_get item ''Resistance'')"
    and "field_loads ''Cadence'' (js_get item ''Cadence'')"
    and "\<not> field_loads ''Stroke instruction'' (js_get item ''Stroke instruction'')"
  shows "\<exists>m. load_segment fp i item = Inl (DataLoadError m fp None) \<and>
             Num (idx i) \<in> set m \<and> names_field ''Stroke instruction'' m"
proof -
  from assms(3) obtain t where t: "js_get item ''Time'' = JNum (Fin t)" "0 < t"
    unfolding loads_Time by blast
  from assms(4) obtain a where a: "js_get item ''Activity'' = JStr a"
    unfolding loads_Activity by blast
  from assms(5) obtain r where r: "js_get item ''Resistance'' = JNum (Fin r)" "0 \<le> r" "r \<le> 20"
    unfolding loads_Resistance by blast
  from assms(6) obtain c where c: "js_get item ''Cadence'' = JNum (Fin c)" "0 \<le> c" "c \<le> 150"
    unfolding loads_Cadence by blast
  show ?thesis
    using assms(1,2,7) t a r c
    by (cases "js_get item ''Stroke instruction''")
       (simp_all add: load_segment_def loads_Stroke names_field_messages js_gt_def)
qed

lemma bad_Elapsed:
  assumes "js_typeof item = ''object''" "item \<noteq> JNull"
    and "field_loads ''Time'' (js_get item ''Time'')"
    and "field_loads ''Activity'' (js_get item ''Activity'')"
    and "field_loads ''Resistance'' (js_get item ''Resistance'')"
    and "field_loads ''Cadence'' (js_get item ''Cadence'')"
    and "field_loads ''Stroke instruction'' (js_get item ''Stroke instruction'')"
    and "\<not> field_loads ''Elapsed Time'' (js_get item ''Elapsed Time'')"
  shows "\<exists>m. load_segment fp i item = Inl (DataLoadError m fp None) \<and>
             Num (idx i) \<in> set m \<and> names_field ''Elapsed Time'' m"
proof -
  from assms(3) obtain t where t: "js_get item ''Time'' = JNum (Fin t)" "0 < t"
    unfolding loads_Time by blast
  from assms(4) obtain a where a: "js_get item ''Activity'' = JStr a"
    unfolding loads_Activity by blast
  from assms(5) obtain r where r: "js_get item ''Resistance'' = JNum (Fin r)" "0 \<le> r" "r \<le> 20"
    unfolding loads_Resistance by blast
  from assms(6) obtain c where c: "js_get item ''Cadence'' = JNum (Fin c)" "0 \<le> c" "c \<le> 150"
    unfolding loads_Cadence by blast
  from assms(7) obtain s where s: "js_get item ''Stroke instruction'' = JStr s"
    unfolding loads_Stroke by blast
  show ?thesis
  proof (cases "js_get item ''Elapsed Time''")
    case (JNum n)
    with assms(1,2,8) t a r c s show ?thesis
      by (cases n)
         (auto simp: load_segment_def loads_Elapsed names_field_messages js_gt_def)
  qed (use assms(1,2) t a r c s in
        \<open>simp_all add: load_segment_def names_field_messages js_gt_def\<close>)
qed

lemma first_bad_error:
  assumes "js_typeof item = ''object''" "item \<noteq> JNull" and "first_bad_field item = Some f"
  shows "\<exists>m. load_segment fp i item = Inl (DataLoadError m fp None) \<and>
             Num (idx i) \<in> set m \<and> names_field f m"
  using assms(3) unfolding first_bad_field_def required_fields_def
  by (auto split: if_splits
      intro: bad_Time [OF assms(1,2)] bad_Activity [OF assms(1,2)] bad_Resistance [OF assms(1,2)]
        bad_Cadence [OF assms(1,2)] bad_Stroke [OF assms(1,2)] bad_Elapsed [OF assms(1,2)]
      simp del: js_get.simps)

lemma first_bad_exists:
  assumes "js_typeof item = ''object''" "item \<noteq> JNull" and "\<not> load_accepts item"
  shows "\<exists>f. first_bad_field item = Some f"
proof -
  from assms have "\<not> list_all (\<lambda>f. field_loads f (js_get item f)) required_fields"
    by (simp add: load_accepts_def)
  then have "find (\<lambda>f. \<not> field_loads f (js_get item f)) required_fields \<noteq> None"
    by (auto simp: find_None_iff list_all_iff)
  then show ?thesis by (auto simp: first_bad_field_def)
qed

lemma rejected_error:
  assumes "\<not> load_accepts item"
  shows "\<exists>m. load_segment fp i item = Inl (DataLoadError m fp None) \<and> Num (idx i) \<in> set m \<and>
             (\<forall>f. first_bad_field item = Some f \<and> js_typeof item = ''object'' \<and> item \<noteq> JNull
                  \<longrightarrow> names_field f m)"
proof (cases "js_typeof item = ''object'' \<and> item \<noteq> JNull")
  case True
  then obtain f where f: "first_bad_field item = Some f"
    using first_bad_exists assms by blast
  with True first_bad_error [of item f fp i] show ?thesis by auto
next
  case False
  then have "load_segment fp i item
     = Inl (DataLoadError [Txt ''Segment at index '', Num (idx i), Txt '' is not an object'']
              fp None)"
    using not_object_error by blast
  with False show ?thesis by auto
qed

lemma loop_first_rejected:
  assumes "i < length items" "\<forall>j<i. load_accepts (items ! j)"
    and "load_segment fp (k + i) (items ! i) = Inl e"
  shows "load_segments_loop fp items k acc = Inl e"
  using assms
proof (induction items arbitrary: i k acc)
  case Nil
  then show ?case by simp
next
  case (Cons item rest)
  show ?case
  proof (cases i)
    case 0
    with Cons.prems show ?thesis by simp
  next
    case (Suc i')
    from Cons.prems(2) Suc have "load_accepts item" by auto
    then obtain seg where seg: "load_segment fp k item = Inr seg"
      using load_accepts_iff by blast
    have "load_segments_loop fp rest (Suc k) (acc @ [seg]) = Inl e"
    proof (rule Cons.IH [of i'])
      show "i' < length rest" using Cons.prems(1) Suc by simp
      show "\<forall>j<i'. load_accepts (rest ! j)" using Cons.prems(2) Suc by auto
      show "load_segment fp (Suc k + i') (rest ! i') = Inl e" using Cons.prems(3) Suc by simp
    qed
    with seg show ?thesis by simp
  qed
qed

lemma loop_all_accepted:
  assumes "\<forall>x \<in> set items. load_accepts x"
  shows "\<exists>segs. load_segments_loop fp items k acc = Inr (acc @ segs) \<and>
           length segs = length items \<and>
           (\<forall>j<length items. load_segment fp (k + j) (items ! j) = Inr (segs ! j))"
  using assms
proof (induction items arbitrary: k acc)
  case Nil
  then show ?case by simp
next
  case (Cons item rest)
  from Cons.prems obtain seg where seg: "load_segment fp k item = Inr seg"
    using load_accepts_iff by (metis list.set_intros(1))
  from Cons.prems have "\<forall>x \<in> set rest. load_accepts x" by simp
  from Cons.IH [OF this, of "Suc k" "acc @ [seg]"]
  obtain segs where segs:
      "load_segments_loop fp rest (Suc k) (acc @ [seg]) = Inr ((acc @ [seg]) @ segs)"
      "length segs = length rest"
      "\<forall>j<length rest. load_segment fp (Suc k + j) (rest ! j) = Inr (segs ! j)"
    by blast
  have "\<forall>j<length (item # rest). load_segment fp (k + j) ((item # rest) ! j) = Inr ((seg # segs) ! j)"
  proof (intro allI impI)
    fix j assume "j < length (item # rest)"
    then show "load_segment fp (k + j) ((item # rest) ! j) = Inr ((seg # segs) ! j)"
      using seg segs(3) by (cases j) simp_all
  qed
  then show ?case
    using seg segs(1,2) by (intro exI [of _ "seg # segs"]) simp
qed

text \<open>
  Claim C8. When the file parses to an array, \<open>loadWorkoutDetails\<close> throws a
  \<open>DataLoadError\<close> if the array is empty; if some element does not meet the loader's
  requirements (an object with its six fields of the right type and finite,
  \<^verbatim>\<open>Time\<close> positive, \<^verbatim>\<open>Resistance\<close> in \<open>[0, 20]\<close>, \<^verbatim>\<open>Cadence\<close> in \<open>[0, 150]\<close>,
  \<^verbatim>\<open>Elapsed Time\<close> not negative), it throws a \<open>DataLoadError\<close> whose message has the index
  of the first such element and, when that element is an object, the name of its first
  offending field; otherwise it returns one typed segment for each element, with the six
  fields of the element. The requirements are on each element alone: no upper bound on
  \<^verbatim>\<open>Elapsed Time\<close> and no comparison between segments.
\<close>

theorem loadWorkoutDetails_outcomes:
  assumes "loadJsonFile pf fp = Inr (JArr items)"
  shows "(items = [] \<longrightarrow>
            loadWorkoutDetails pf fp
              = Inl (DataLoadError [Txt ''Workout details array is empty''] fp None)) \<and>
         (\<forall>i<length items.
            (\<forall>j<i. load_accepts (items ! j)) \<and> \<not> load_accepts (items ! i) \<longrightarrow>
            (\<exists>m. loadWorkoutDetails pf fp = Inl (DataLoadError m fp None) \<and>
                  Num (idx i) \<in> set m \<and>
                  (\<forall>f. first_bad_field (items ! i) = Some f \<and>
                       js_typeof (items ! i) = ''object'' \<and> items ! i \<noteq> JNull
                       \<longrightarrow> names_field f m))) \<and>
         (items \<noteq> [] \<and> (\<forall>x \<in> set items. load_accepts x) \<longrightarrow>
            (\<exists>segs. loadWorkoutDetails pf fp = Inr segs \<and> length segs = length items \<and>
               (\<forall>j<length items.
                  list_all (\<lambda>f. js_get (segment_to_js (segs ! j)) f = js_get (items ! j) f)
                    required_fields)))"
proof (intro conjI allI impI)
  assume "items = []"
  with assms show "loadWorkoutDetails pf fp
      = Inl (DataLoadError [Txt ''Workout details array is empty''] fp None)"
    by (simp add: loadWorkoutDetails_def)
next
  fix i
  assume i: "i < length items"
    and bad: "(\<forall>j<i. load_accepts (items ! j)) \<and> \<not> load_accepts (items ! i)"
  from rejected_error [of "items ! i" fp i] bad
  obtain m where m: "load_segment fp i (items ! i) = Inl (DataLoadError m fp None)"
      "Num (idx i) \<in> set m"
      "\<forall>f. first_bad_field (items ! i) = Some f \<and> js_typeof (items ! i) = ''object'' \<and>
           items ! i \<noteq> JNull \<longrightarrow> names_field f m"
    by blast
  have "load_segments_loop fp items 0 [] = Inl (DataLoadError m fp None)"
    using loop_first_rejected [of i items fp 0 "DataLoadError m fp None" "[]"] i bad m(1)
    by simp
  moreover have "items \<noteq> []" using i by auto
  ultimately have "loadWorkoutDetails pf fp = Inl (DataLoadError m fp None)"
    using assms by (simp add: loadWorkoutDetails_def)
  with m(2,3) show "\<exists>m. loadWorkoutDetails pf fp = Inl (DataLoadError m fp None) \<and>
                  Num (idx i) \<in> set m \<and>
                  (\<forall>f. first_bad_field (items ! i) = Some f \<and>
                       js_typeof (items ! i) = ''object'' \<and> items ! i \<noteq> JNull
                       \<longrightarrow> names_field f m)"
    by blast
next
  assume ok: "items \<noteq> [] \<and> (\<forall>x \<in> set items. load_accepts x)"
  from loop_all_accepted [of items fp 0 "[]"] ok
  obtain segs where segs: "load_segments_loop fp items 0 [] = Inr segs"
      "length segs = length items"
      "\<forall>j<length items. load_segment fp j (items ! j) = Inr (segs ! j)"
    by auto
  have "loadWorkoutDetails pf fp = Inr segs"
    using assms ok segs(1) by (simp add: loadWorkoutDetails_def)
  moreover have "\<forall>j<length items.
      list_all (\<lambda>f. js_get (segment_to_js (segs ! j)) f = js_get (items ! j) f) required_fields"
    using segs(3) loaded_fields by blast
  ultimately show "\<exists>segs. loadWorkoutDetails pf fp = Inr segs \<and> length segs = length items \<and>
               (\<forall>j<length items.
                  list_all (\<lambda>f. js_get (segment_to_js (segs ! j)) f = js_get (items ! j) f)
                    required_fields)"
    using segs(2) by blast
qed

theorem loadWorkoutDetails_outcomes_witness:
  "loadJsonFile (example_platform (JArr [])) ''w.json'' = Inr (JArr []) \<and>
   loadWorkoutDetails (example_platform (JArr [])) ''w.json''
     = Inl (DataLoadError [Txt ''Workout details array is empty''] ''w.json'' None) \<and>
   load_accepts (segment_to_js (example_segment 5 5)) \<and>
   \<not> load_accepts (segment_object (Fin 5) ''Sprint'' (Fin 21) (Fin 80) [] (Fin 10)) \<and>
   first_bad_field (segment_object (Fin 5) ''Sprint'' (Fin 21) (Fin 80) [] (Fin 10))
     = Some ''Resistance'' \<and>
   (\<exists>m. loadWorkoutDetails
           (example_platform
              (JArr [segment_to_js (example_segment 5 5),
                     segment_object (Fin 5) ''Sprint'' (Fin 21) (Fin 80) [] (Fin 10)]))
           ''w.json''
         = Inl (DataLoadError m ''w.json'' None) \<and>
        Num (idx 1) \<in> set m \<and> names_field ''Resistance'' m) \<and>
   load_accepts (segment_to_js (example_segment 5 500)) \<and>
   load_accepts (segment_to_js (example_segment 5 3)) \<and>
   (\<exists>segs. loadWorkoutDetails
              (example_platform
                 (JArr [segment_to_js (example_segment 5 500),
                        segment_to_js (example_segment 5 3)]))
              ''w.json''
            = Inr segs \<and>
           length segs = 2)"
proof -
  let ?bad = "segment_object (Fin 5) ''Sprint'' (Fin 21) (Fin 80) [] (Fin 10)"
  let ?mixed = "[segment_to_js (example_segment 5 5), ?bad]"
  let ?good = "[segment_to_js (example_segment 5 500), segment_to_js (example_segment 5 3)]"
  have parsed: "loadJsonFile (example_platform d) ''w.json'' = Inr d" for d
    by (simp add: loadJsonFile_def example_platform_def js_trim_def js_isSpace_def)
  have accepted: "load_accepts (segment_to_js (example_segment 5 e))" if "0 \<le> e" for e
    using that
    by (simp add: load_accepts_def required_fields_def loads_simps segment_to_js_def
        example_segment_def)
  have rejected: "\<not> load_accepts ?bad"
    by (simp add: load_accepts_def required_fields_def loads_simps)
  have field: "first_bad_field ?bad = Some ''Resistance''"
    by (simp add: first_bad_field_def required_fields_def loads_simps)
  have shape: "js_typeof ?bad = ''object'' \<and> ?bad \<noteq> JNull"
    by simp
  note empty = loadWorkoutDetails_outcomes [OF parsed [of "JArr []"]]
  note mixed = loadWorkoutDetails_outcomes [OF parsed [of "JArr ?mixed"]]
  note good = loadWorkoutDetails_outcomes [OF parsed [of "JArr ?good"]]
  have first: "loadWorkoutDetails (example_platform (JArr [])) ''w.json''
     = Inl (DataLoadError [Txt ''Workout details array is empty''] ''w.json'' None)"
    using empty by simp
  have "(\<forall>j<1. load_accepts (?mixed ! j)) \<and> \<not> load_accepts (?mixed ! 1)"
    using accepted [of 5] rejected by simp
  moreover have "1 < length ?mixed" by simp
  ultimately obtain m where m:
      "loadWorkoutDetails (example_platform (JArr ?mixed)) ''w.json''
         = Inl (DataLoadError m ''w.json'' None)"
      "Num (idx 1) \<in> set m"
      "\<forall>f. first_bad_field (?mixed ! 1) = Some f \<and> js_typeof (?mixed ! 1) = ''object'' \<and>
           ?mixed ! 1 \<noteq> JNull \<longrightarrow> names_field f m"
    using mixed by blast
  from m(3) field shape have "names_field ''Resistance'' m" by simp
  with m(1,2) have second: "\<exists>m. loadWorkoutDetails (example_platform (JArr ?mixed)) ''w.json''
         = Inl (DataLoadError m ''w.json'' None) \<and>
        Num (idx 1) \<in> set m \<and> names_field ''Resistance'' m"
    by blast
  have "?good \<noteq> [] \<and> (\<forall>x \<in> set ?good. load_accepts x)"
    using accepted [of 500] accepted [of 3] by simp
  then have third: "\<exists>segs. loadWorkoutDetails (example_platform (JArr ?good)) ''w.json''
      = Inr segs \<and> length segs = 2"
    using good by auto
  show ?thesis
    using parsed [of "JArr []"] first accepted [of 5] rejected field second
      accepted [of 500] accepted [of 3] third
    by simp
qed

subsection \<open>fetchWithRetry\<close>

declare fetch_loop.simps [simp del]

lemma count_fetches_append [simp]:
  "count_fetches (xs @ ys) = count_fetches xs + count_fetches ys"
  by (induction xs rule: count_fetches.induct) simp_all















subsection \<open>The loop of validateWorkoutDetails\<close>

lemma merge_result_fields:
  "errors (merge_result c r) = errors r @ errors c"
  "warnings (merge_result c r) = warnings r @ warnings c"
  "valid (merge_result c r) = (valid r \<and> valid c)"
  by (auto simp: merge_result_def push_errors_def push_warnings_def set_invalid_def Let_def)

lemma segments_loop_result:
  assumes "JNull \<notin> set xs" "JUndefined \<notin> set xs"
  shows "\<exists>r'. validateSegments_loop fadd xs i p r = Inr r' \<and>
           errors r' = errors r @
             concat (map (\<lambda>j. errors (validateSegment fadd (xs ! j) (idx (i + j))
                                (foldl (next_previousElapsedTime fadd) p (take j xs))))
                       [0..<length xs]) \<and>
           valid r' = (valid r \<and>
             (\<forall>j<length xs. valid (validateSegment fadd (xs ! j) (idx (i + j))
                                (foldl (next_previousElapsedTime fadd) p (take j xs)))))"
  using assms
proof (induction xs arbitrary: i p r)
  case Nil
  then show ?case by simp
next
  case (Cons x xs)
  let ?r = "merge_result (validateSegment fadd x (idx i) p) r"
  let ?p = "next_previousElapsedTime fadd p x"
  from Cons.prems have x: "x \<noteq> JNull" "x \<noteq> JUndefined"
    and xs: "JNull \<notin> set xs" "JUndefined \<notin> set xs"
    by auto
  from Cons.IH [OF xs, of "Suc i" ?p ?r]
  obtain r' where r': "validateSegments_loop fadd xs (Suc i) ?p ?r = Inr r'"
    "errors r' = errors ?r @
       concat (map (\<lambda>j. errors (validateSegment fadd (xs ! j) (idx (Suc i + j))
                          (foldl (next_previousElapsedTime fadd) ?p (take j xs))))
                 [0..<length xs])"
    "valid r' = (valid ?r \<and>
       (\<forall>j<length xs. valid (validateSegment fadd (xs ! j) (idx (Suc i + j))
                          (foldl (next_previousElapsedTime fadd) ?p (take j xs)))))"
    by blast
  have run: "validateSegments_loop fadd (x # xs) i p r = Inr r'"
    using x r'(1) by (simp add: Let_def)
  have shift: "map (\<lambda>j. errors (validateSegment fadd ((x # xs) ! j) (idx (i + j))
                    (foldl (next_previousElapsedTime fadd) p (take j (x # xs)))))
                 [0..<length (x # xs)]
      = errors (validateSegment fadd x (idx i) p) #
        map (\<lambda>j. errors (validateSegment fadd (xs ! j) (idx (Suc i + j))
                    (foldl (next_previousElapsedTime fadd) ?p (take j xs))))
          [0..<length xs]"
    by (simp add: upt_conv_Cons map_Suc_upt [symmetric] del: upt_Suc)
  have all: "(\<forall>j<length (x # xs). valid (validateSegment fadd ((x # xs) ! j) (idx (i + j))
                    (foldl (next_previousElapsedTime fadd) p (take j (x # xs)))))
      = (valid (validateSegment fadd x (idx i) p) \<and>
         (\<forall>j<length xs. valid (validateSegment fadd (xs ! j) (idx (Suc i + j))
                    (foldl (next_previousElapsedTime fadd) ?p (take j xs)))))"
    by (auto simp: All_less_Suc2)
  show ?case
    unfolding shift all using run r'(2,3) by (auto simp: merge_result_fields)
qed

lemma errors_warn [simp]: "errors (warn m r) = errors r"
  by (simp add: warn_def push_warnings_def)

lemma errors_fail [simp]: "errors (fail m r) = errors r @ [m]"
  by (simp add: fail_def push_errors_def set_invalid_def)

lemma check_warmup_fields [simp]:
  "errors (check_warmup s r) = errors r" "valid (check_warmup s r) = valid r"
  by (simp_all add: check_warmup_def split: jsval.split)

lemma check_cooldown_fields [simp]:
  "errors (check_cooldown s r) = errors r" "valid (check_cooldown s r) = valid r"
  by (simp_all add: check_cooldown_def split: jsval.split)

lemma details_result:
  assumes "items \<noteq> []" "JNull \<notin> set items" "JUndefined \<notin> set items"
  shows "\<exists>r. validateWorkoutDetails fadd (JArr items) = Inr r \<and>
           errors r = concat (map (\<lambda>j. errors (validateSegment fadd (items ! j) (idx j)
                                       (elapsed_before fadd items j))) [0..<length items]) \<and>
           valid r = (\<forall>j<length items. valid (validateSegment fadd (items ! j) (idx j)
                                       (elapsed_before fadd items j)))"
proof -
  from segments_loop_result [OF assms(2,3), of fadd 0 "Fin 0" new_result]
  obtain r' where r': "validateSegments_loop fadd items 0 (Fin 0) new_result = Inr r'"
    "errors r' = concat (map (\<lambda>j. errors (validateSegment fadd (items ! j) (idx j)
                                       (elapsed_before fadd items j))) [0..<length items])"
    "valid r' = (\<forall>j<length items. valid (validateSegment fadd (items ! j) (idx j)
                                       (elapsed_before fadd items j)))"
    by (auto simp: elapsed_before_def new_result_def)
  have "validateWorkoutDetails fadd (JArr items)
      = Inr (check_cooldown (last items) (check_warmup (hd items) r'))"
    using assms(1) r'(1) by (simp add: validateWorkoutDetails_def)
  then show ?thesis using r'(2,3) by simp
qed

lemma next_previousElapsedTime_Time:
  "js_get x ''Time'' = js_get y ''Time'' \<Longrightarrow>
   next_previousElapsedTime fadd p x = next_previousElapsedTime fadd p y"
  by (simp add: next_previousElapsedTime_def)

lemma foldl_next_Time:
  "map (\<lambda>x. js_get x ''Time'') xs = map (\<lambda>x. js_get x ''Time'') ys \<Longrightarrow>
   foldl (next_previousElapsedTime fadd) p xs = foldl (next_previousElapsedTime fadd) p ys"
proof (induction xs arbitrary: ys p)
  case Nil
  then show ?case by simp
next
  case (Cons x xs)
  then obtain y ys' where ys: "ys = y # ys'" by (cases ys) auto
  with Cons.prems have "js_get x ''Time'' = js_get y ''Time''"
    and "map (\<lambda>x. js_get x ''Time'') xs = map (\<lambda>x. js_get x ''Time'') ys'"
    by simp_all
  then show ?case
    using Cons.IH [of ys'] ys next_previousElapsedTime_Time [of x y fadd p] by simp
qed

lemma elapsed_before_Time:
  assumes "map (\<lambda>x. js_get x ''Time'') xs = map (\<lambda>x. js_get x ''Time'') ys"
  shows "elapsed_before fadd xs j = elapsed_before fadd ys j"
proof -
  have "map (\<lambda>x. js_get x ''Time'') (take j xs) = map (\<lambda>x. js_get x ''Time'') (take j ys)"
    using assms by (simp add: take_map [symmetric])
  then show ?thesis unfolding elapsed_before_def by (rule foldl_next_Time)
qed

lemma validateSegment_split:
  "js_typeof s = ''object'' \<Longrightarrow> s \<noteq> JNull \<Longrightarrow>
   validateSegment fadd s i p
     = validate_Elapsed_Time fadd i p (js_get s ''Time'') (js_get s ''Elapsed Time'')
         (checks_before_Elapsed_Time s i)"
  by (simp add: validateSegment_def checks_before_Elapsed_Time_def Let_def)

lemma errors_Elapsed_append:
  "errors (validate_Elapsed_Time fadd i p tv v r)
     = errors r @ errors (validate_Elapsed_Time fadd i p tv v new_result)"
  by (simp add: validate_Elapsed_Time_def Let_def new_result_def fail_def warn_def
      push_errors_def push_warnings_def set_invalid_def split: jsval.split)

lemma concat_single:
  "k < n \<Longrightarrow> concat (map (\<lambda>j. if j = k then es else []) [0..<n]) = es"
proof (induction n)
  case 0
  then show ?case by simp
next
  case (Suc n)
  show ?case
  proof (cases "k = n")
    case True
    have "concat (map (\<lambda>j. if j = k then es else []) [0..<n]) = []"
      using True by (auto simp add: concat_eq_Nil_conv)
    with True show ?thesis by simp
  next
    case False
    with Suc show ?thesis by simp
  qed
qed

subsection \<open>One wrong Elapsed Time\<close>

lemma checks_before_update:
  "checks_before_Elapsed_Time (JObj (AList.update ''Elapsed Time'' v fs)) i
     = checks_before_Elapsed_Time (JObj fs) i"
  by (simp add: checks_before_Elapsed_Time_def update_conv')

text \<open>
  A segment without errors whose \<^verbatim>\<open>Elapsed Time\<close> is replaced by \<open>v\<close> has the errors that
  the block of \<^verbatim>\<open>Elapsed Time\<close> gives for \<open>v\<close>, and no other.
\<close>

lemma changed_segment:
  assumes clean: "errors (validateSegment fadd (JObj fs) i p) = []"
  shows "errors (validateSegment fadd (JObj (AList.update ''Elapsed Time'' v fs)) i p)
           = errors (validate_Elapsed_Time fadd i p (js_get (JObj fs) ''Time'') v new_result)"
proof -
  let ?s' = "JObj (AList.update ''Elapsed Time'' v fs)"
  have "validateSegment fadd (JObj fs) i p
      = validate_Elapsed_Time fadd i p (js_get (JObj fs) ''Time'') (js_get (JObj fs) ''Elapsed Time'')
          (checks_before_Elapsed_Time (JObj fs) i)"
    by (simp add: validateSegment_split del: js_get.simps)
  then have "errors (validateSegment fadd (JObj fs) i p)
      = errors (checks_before_Elapsed_Time (JObj fs) i) @
        errors (validate_Elapsed_Time fadd i p (js_get (JObj fs) ''Time'')
                  (js_get (JObj fs) ''Elapsed Time'') new_result)"
    using errors_Elapsed_append
      [of fadd i p "js_get (JObj fs) ''Time''" "js_get (JObj fs) ''Elapsed Time''"
          "checks_before_Elapsed_Time (JObj fs) i"]
    by simp
  with clean have before: "errors (checks_before_Elapsed_Time (JObj fs) i) = []"
    by simp
  have fields: "js_get ?s' ''Time'' = js_get (JObj fs) ''Time''" "js_get ?s' ''Elapsed Time'' = v"
    by (simp_all add: update_conv')
  have "validateSegment fadd ?s' i p
      = validate_Elapsed_Time fadd i p (js_get (JObj fs) ''Time'') v
          (checks_before_Elapsed_Time (JObj fs) i)"
    using fields by (simp add: validateSegment_split checks_before_update del: js_get.simps)
  then have "errors (validateSegment fadd ?s' i p)
      = errors (checks_before_Elapsed_Time (JObj fs) i) @
        errors (validate_Elapsed_Time fadd i p (js_get (JObj fs) ''Time'') v new_result)"
    using errors_Elapsed_append
      [of fadd i p "js_get (JObj fs) ''Time''" v "checks_before_Elapsed_Time (JObj fs) i"]
    by simp
  then show ?thesis using before by simp
qed

lemma valid_segment_Time:
  assumes "valid (validateSegment fadd s i p)"
  shows "\<exists>t. js_get s ''Time'' = JNum (Fin t) \<and> 1 \<le> t"
proof (cases "js_typeof s = ''object'' \<and> s \<noteq> JNull")
  case True
  with assms show ?thesis
    by (simp add: validateSegment_split valid_Elapsed checks_before_Elapsed_Time_def valid_Stroke
        valid_Cadence valid_Resistance valid_Activity valid_Time del: js_get.simps)
next
  case False
  with assms show ?thesis by (auto simp: validateSegment_def)
qed

lemma errors_iff_valid:
  "(errors (validateSegment fadd s i p) = []) = valid (validateSegment fadd s i p)"
  using consistent_validateSegment [of fadd s i p] by (simp add: consistent_def)

text \<open>
  The value of \<^verbatim>\<open>previousElapsedTime\<close> is the sum, from \<open>0\<close> and in the order of the array,
  of the \<^verbatim>\<open>Time\<close> fields passed so far, when each of them is a finite number.
\<close>

lemma foldl_next_numbers:
  "\<forall>y\<in>set ys. \<exists>t. js_get y ''Time'' = JNum (Fin t) \<Longrightarrow>
   foldl (next_previousElapsedTime fadd) p ys = foldl fadd p (map Time_number ys)"
proof (induction ys arbitrary: p)
  case Nil
  then show ?case by simp
next
  case (Cons y ys)
  from Cons.prems obtain t where t: "js_get y ''Time'' = JNum (Fin t)" by auto
  then have "next_previousElapsedTime fadd p y = fadd p (Time_number y)"
    by (simp add: next_previousElapsedTime_def Time_number_def)
  with Cons show ?case by simp
qed

lemma elapsed_before_numbers:
  assumes "\<forall>i<length xs. \<exists>t. js_get (xs ! i) ''Time'' = JNum (Fin t)"
  shows "elapsed_before fadd xs j = foldl fadd (Fin 0) (map Time_number (take j xs))"
proof -
  have "\<forall>y\<in>set (take j xs). \<exists>t. js_get y ''Time'' = JNum (Fin t)"
  proof
    fix y assume "y \<in> set (take j xs)"
    then have "y \<in> set xs" by (rule in_set_takeD)
    then obtain i where "i < length xs" "xs ! i = y" by (auto simp: in_set_conv_nth)
    with assms show "\<exists>t. js_get y ''Time'' = JNum (Fin t)" by auto
  qed
  then show ?thesis unfolding elapsed_before_def by (rule foldl_next_numbers)
qed

text \<open>
  The array is valid and the \<^verbatim>\<open>Elapsed Time\<close> of its segment \<open>k\<close> is replaced by \<open>v\<close>: the
  errors of the new result are those of the block of \<^verbatim>\<open>Elapsed Time\<close> on \<open>v\<close> at segment
  \<open>k\<close>, with the value of \<^verbatim>\<open>previousElapsedTime\<close> that the unchanged array has there.
\<close>

lemma one_changed:
  assumes "validateWorkoutDetails fadd (JArr items) = Inr r" and "valid r"
    and "k < length items" and "items ! k = JObj fs"
  shows "\<exists>r'. validateWorkoutDetails fadd
                 (JArr (items[k := JObj (AList.update ''Elapsed Time'' v fs)])) = Inr r' \<and>
              errors r' = errors (validate_Elapsed_Time fadd (idx k) (elapsed_before fadd items k)
                                    (js_get (JObj fs) ''Time'') v new_result) \<and>
              valid r' = (errors r' = [])"
proof -
  let ?s' = "JObj (AList.update ''Elapsed Time'' v fs)"
  let ?items' = "items[k := ?s']"
  let ?es = "errors (validate_Elapsed_Time fadd (idx k) (elapsed_before fadd items k)
                       (js_get (JObj fs) ''Time'') v new_result)"
  have nonempty: "items \<noteq> []" using assms(3) by auto
  have clean: "JNull \<notin> set items \<and> JUndefined \<notin> set items"
    using validateWorkoutDetails_returns [of fadd "JArr items"] assms(1) by auto
  from details_result [OF nonempty, of fadd] clean assms(1,2)
  have each: "\<forall>j<length items.
      valid (validateSegment fadd (items ! j) (idx j) (elapsed_before fadd items j))"
    by auto
  have "set ?items' \<subseteq> insert ?s' (set items)"
    by (rule set_update_subset_insert)
  then have clean': "JNull \<notin> set ?items'" "JUndefined \<notin> set ?items'"
    using clean by auto
  have "?items' \<noteq> []" using nonempty by simp
  from details_result [OF this clean', of fadd]
  obtain r' where r': "validateWorkoutDetails fadd (JArr ?items') = Inr r'"
    "errors r' = concat (map (\<lambda>j. errors (validateSegment fadd (?items' ! j) (idx j)
                                 (elapsed_before fadd ?items' j))) [0..<length ?items'])"
    by blast
  have "js_get ?s' ''Time'' = js_get (items ! k) ''Time''"
    using assms(4) by (simp add: update_conv')
  then have "map (\<lambda>x. js_get x ''Time'') ?items' = map (\<lambda>x. js_get x ''Time'') items"
    using assms(3) by (simp add: map_update list_update_same_conv)
  then have before: "elapsed_before fadd ?items' j = elapsed_before fadd items j" for j
    by (rule elapsed_before_Time)
  have at_k: "errors (validateSegment fadd ?s' (idx k) (elapsed_before fadd items k)) = ?es"
  proof (rule changed_segment)
    show "errors (validateSegment fadd (JObj fs) (idx k) (elapsed_before fadd items k)) = []"
      using each assms(3,4) by (auto simp: errors_iff_valid simp del: js_get.simps)
  qed
  have same: "map (\<lambda>j. errors (validateSegment fadd (?items' ! j) (idx j)
                                 (elapsed_before fadd ?items' j)))
          [0..<length ?items']
      = map (\<lambda>j. if j = k then ?es else []) [0..<length items]"
  proof (rule map_cong)
    show "[0..<length ?items'] = [0..<length items]" by simp
  next
    fix j assume "j \<in> set [0..<length items]"
    then have j: "j < length items" by simp
    show "errors (validateSegment fadd (?items' ! j) (idx j) (elapsed_before fadd ?items' j))
        = (if j = k then ?es else [])"
    proof (cases "j = k")
      case True
      with j at_k show ?thesis by (simp add: before)
    next
      case False
      with j each show ?thesis by (simp add: before errors_iff_valid)
    qed
  qed
  have errs: "errors r' = ?es"
    unfolding r'(2) same using assms(3) by (rule concat_single)
  moreover have "valid r' = (errors r' = [])"
    using consistent_validateWorkoutDetails [OF r'(1)] by (simp add: consistent_def)
  ultimately show ?thesis
    using r'(1) by blast
qed

lemmas segment_evaluation =
  validateSegment_def validate_Time_def validate_Activity_def validate_Resistance_def
  validate_Cadence_def validate_Stroke_instruction_def validate_Elapsed_Time_def Let_def
  minTime_def maxTime_def minResistance_def maxResistance_def minCadence_def maxCadence_def
  maxElapsedTime_def js_gt_def js_eq_def js_trim_def js_isSpace_def VALID_ACTIVITIES_def
  idx_def new_result_def warn_def fail_def push_warnings_def push_errors_def set_invalid_def
  elapsed_mismatch_def

lemma warmup_result:
  "validateSegment js_add warmup_object (idx 0) (Fin 0) = new_result"
  by (simp add: warmup_object_def segment_object_def segment_evaluation)

lemma cooldown_result:
  "validateSegment js_add (JObj (cooldown_fields e)) (Fin 1) (Fin 5)
     = (if e < 0 then
          \<lparr>valid = False,
           errors = [[Txt ''Segment '', Num (Fin 1), Txt '': Elapsed Time '', Num (Fin e),
                      Txt '' cannot be negative'']],
           warnings = []\<rparr>
        else if 120 < e then
          \<lparr>valid = True, errors = [],
           warnings = [[Txt ''Segment '', Num (Fin 1), Txt '': Elapsed Time '', Num (Fin e),
                        Txt '' exceeds typical workout duration'']]\<rparr>
        else if e \<noteq> 10 then
          \<lparr>valid = False,
           errors = [elapsed_mismatch (Fin 1) (Fin e) (Fin 10) (Fin 5) (Fin 5)],
           warnings = []\<rparr>
        else new_result)"
  by (simp add: cooldown_fields_def segment_evaluation)

lemma two_segments:
  "validateWorkoutDetails js_add (JArr [warmup_object, JObj (cooldown_fields e)])
     = Inr (merge_result (validateSegment js_add (JObj (cooldown_fields e)) (idx (Suc 0)) (Fin 5))
              new_result)"
proof -
  have next_p: "next_previousElapsedTime js_add (Fin 0) warmup_object = Fin 5"
    by (simp add: next_previousElapsedTime_def warmup_object_def)
  have first: "merge_result new_result new_result = new_result"
    by (simp add: merge_result_def new_result_def push_errors_def push_warnings_def)
  have ends: "check_warmup warmup_object r = r"
    "check_cooldown (JObj (cooldown_fields e)) r = r" for r
    by (simp_all add: check_warmup_def check_cooldown_def warmup_object_def cooldown_fields_def)
  have shape: "warmup_object \<noteq> JNull" "warmup_object \<noteq> JUndefined"
    by (simp_all add: warmup_object_def)
  show ?thesis
    by (simp add: validateWorkoutDetails_def Let_def warmup_result next_p first ends shape
        del: js_get.simps)
qed

lemma three_segments:
  "validateWorkoutDetails js_add
     (JArr [warmup_object, JObj (sprint_fields 10), JObj (cooldown_fields 15)])
     = Inr new_result"
proof -
  have next_p: "next_previousElapsedTime js_add (Fin 0) warmup_object = Fin 5"
    "next_previousElapsedTime js_add (Fin 5) (JObj (sprint_fields 10)) = Fin 10"
    by (simp_all add: next_previousElapsedTime_def warmup_object_def sprint_fields_def)
  have second: "validateSegment js_add (JObj (sprint_fields 10)) (idx (Suc 0)) (Fin 5) = new_result"
    by (simp add: sprint_fields_def segment_evaluation)
  have third: "validateSegment js_add (JObj (cooldown_fields 15)) (idx (Suc (Suc 0))) (Fin 10)
      = new_result"
    by (simp add: cooldown_fields_def segment_evaluation)
  have merged: "merge_result new_result new_result = new_result"
    by (simp add: merge_result_def new_result_def push_errors_def push_warnings_def)
  have ends: "check_warmup warmup_object r = r"
    "check_cooldown (JObj (cooldown_fields 15)) r = r" for r
    by (simp_all add: check_warmup_def check_cooldown_def warmup_object_def cooldown_fields_def)
  have shape: "warmup_object \<noteq> JNull" "warmup_object \<noteq> JUndefined"
    by (simp_all add: warmup_object_def)
  show ?thesis
    by (simp add: validateWorkoutDetails_def Let_def warmup_result second third next_p merged
        ends shape del: js_get.simps)
qed

text \<open>
  Claim C2, amended. Take an array that \<open>validateWorkoutDetails\<close> finds valid, and replace
  the \<^verbatim>\<open>Elapsed Time\<close> of one segment, at index \<open>k\<close>, whose \<^verbatim>\<open>Time\<close> is \<open>t\<close>. Let \<open>p\<close> be the
  value of \<^verbatim>\<open>previousElapsedTime\<close> at index \<open>k\<close>. Then the result is invalid and has
  exactly one error, on segment \<open>k\<close>:

    \<^item> the consistency error, citing \<open>p + t\<close> as the expected value, when the new value is a
      finite number in \<open>[0, 120]\<close> other than \<open>p + t\<close>;
    \<^item> the error that the value cannot be negative, when it is a negative number;
    \<^item> the error that the value must be a finite number, when it is \<open>NaN\<close> or infinite;
    \<^item> the error that the value must be a number, when it is not one.

  No other segment gets an error, before or after \<open>k\<close>, because the
  \<^verbatim>\<open>previousElapsedTime\<close> of every index is the same in the two arrays: in the valid array
  it is the sum of the \<^verbatim>\<open>Time\<close> fields before that index, added from 0 in the order of
  the array, and no \<^verbatim>\<open>Elapsed Time\<close> is read for it. For every array without \<^verbatim>\<open>null\<close> the
  errors of the result are the errors of \<open>validateSegment\<close> on each segment with that
  value. A new value above 120 is not covered here.
\<close>

theorem single_wrong_Elapsed_Time:
  assumes "validateWorkoutDetails fadd (JArr items) = Inr r" and "valid r"
    and "k < length items" and "items ! k = JObj fs"
    and "js_get (JObj fs) ''Time'' = JNum (Fin t)"
  shows
    "(0 \<le> e \<and> e \<le> 120 \<and> \<not> js_eq (Fin e) (fadd (elapsed_before fadd items k) (Fin t)) \<longrightarrow>
        (\<exists>r'. validateWorkoutDetails fadd
                 (JArr (items[k := JObj (AList.update ''Elapsed Time'' (JNum (Fin e)) fs)]))
               = Inr r' \<and>
              \<not> valid r' \<and>
              errors r' = [elapsed_mismatch (idx k) (Fin e)
                             (fadd (elapsed_before fadd items k) (Fin t))
                             (elapsed_before fadd items k) (Fin t)])) \<and>
     (e < 0 \<longrightarrow>
        (\<exists>r'. validateWorkoutDetails fadd
                 (JArr (items[k := JObj (AList.update ''Elapsed Time'' (JNum (Fin e)) fs)]))
               = Inr r' \<and>
              \<not> valid r' \<and>
              errors r' = [[Txt ''Segment '', Num (idx k), Txt '': Elapsed Time '', Num (Fin e),
                            Txt '' cannot be negative'']])) \<and>
     (\<not> isFinite n \<longrightarrow>
        (\<exists>r'. validateWorkoutDetails fadd
                 (JArr (items[k := JObj (AList.update ''Elapsed Time'' (JNum n) fs)]))
               = Inr r' \<and>
              \<not> valid r' \<and>
              errors r' = [[Txt ''Segment '', Num (idx k),
                            Txt '': Elapsed Time must be a finite number'']])) \<and>
     (js_typeof v \<noteq> ''number'' \<longrightarrow>
        (\<exists>r'. validateWorkoutDetails fadd
                 (JArr (items[k := JObj (AList.update ''Elapsed Time'' v fs)]))
               = Inr r' \<and>
              \<not> valid r' \<and>
              errors r' = [[Txt ''Segment '', Num (idx k),
                            Txt '': Elapsed Time must be a number, got '', Txt (js_typeof v)]])) \<and>
     elapsed_before fadd (items[k := JObj (AList.update ''Elapsed Time'' v fs)]) j
       = elapsed_before fadd items j \<and>
     elapsed_before fadd items j = foldl fadd (Fin 0) (map Time_number (take j items)) \<and>
     (xs \<noteq> [] \<and> JNull \<notin> set xs \<and> JUndefined \<notin> set xs \<longrightarrow>
        (\<exists>q. validateWorkoutDetails fadd (JArr xs) = Inr q \<and>
           errors q = concat (map (\<lambda>j. errors (validateSegment fadd (xs ! j) (idx j)
                                        (elapsed_before fadd xs j))) [0..<length xs]) \<and>
           valid q = (\<forall>j<length xs. valid (validateSegment fadd (xs ! j) (idx j)
                                        (elapsed_before fadd xs j)))))"
proof -
  let ?p = "elapsed_before fadd items k"
  note changed = one_changed [OF assms(1,2,3,4)]
  have block: "errors (validate_Elapsed_Time fadd (idx k) ?p (js_get (JObj fs) ''Time'') w
                         new_result) = [m] \<Longrightarrow>
      \<exists>r'. validateWorkoutDetails fadd
             (JArr (items[k := JObj (AList.update ''Elapsed Time'' w fs)])) = Inr r' \<and>
           \<not> valid r' \<and> errors r' = [m]" for w m
    using changed [of w] by auto
  have mismatch: "\<exists>r'. validateWorkoutDetails fadd
             (JArr (items[k := JObj (AList.update ''Elapsed Time'' (JNum (Fin e)) fs)]))
           = Inr r' \<and>
         \<not> valid r' \<and>
         errors r' = [elapsed_mismatch (idx k) (Fin e) (fadd ?p (Fin t)) ?p (Fin t)]"
    if "0 \<le> e" "e \<le> 120" "\<not> js_eq (Fin e) (fadd ?p (Fin t))"
    using that assms(5)
    by (intro block)
      (simp add: validate_Elapsed_Time_def maxElapsedTime_def js_gt_def Let_def new_result_def
        fail_def push_errors_def set_invalid_def del: js_get.simps)
  have negative: "\<exists>r'. validateWorkoutDetails fadd
             (JArr (items[k := JObj (AList.update ''Elapsed Time'' (JNum (Fin e)) fs)]))
           = Inr r' \<and>
         \<not> valid r' \<and>
         errors r' = [[Txt ''Segment '', Num (idx k), Txt '': Elapsed Time '', Num (Fin e),
                       Txt '' cannot be negative'']]"
    if "e < 0"
    using that
    by (intro block)
      (simp add: validate_Elapsed_Time_def new_result_def fail_def push_errors_def
        set_invalid_def del: js_get.simps)
  have infinite: "\<exists>r'. validateWorkoutDetails fadd
             (JArr (items[k := JObj (AList.update ''Elapsed Time'' (JNum n) fs)]))
           = Inr r' \<and>
         \<not> valid r' \<and>
         errors r' = [[Txt ''Segment '', Num (idx k),
                       Txt '': Elapsed Time must be a finite number'']]"
    if "\<not> isFinite n"
    using that
    by (intro block)
      (simp add: validate_Elapsed_Time_def new_result_def fail_def push_errors_def
        set_invalid_def del: js_get.simps)
  have other: "\<exists>r'. validateWorkoutDetails fadd
             (JArr (items[k := JObj (AList.update ''Elapsed Time'' v fs)]))
           = Inr r' \<and>
         \<not> valid r' \<and>
         errors r' = [[Txt ''Segment '', Num (idx k),
                       Txt '': Elapsed Time must be a number, got '', Txt (js_typeof v)]]"
    if "js_typeof v \<noteq> ''number''"
    using that
    by (intro block, cases v)
      (simp_all add: validate_Elapsed_Time_def new_result_def fail_def push_errors_def
        set_invalid_def del: js_get.simps)
  have "js_get (JObj (AList.update ''Elapsed Time'' v fs)) ''Time'' = js_get (items ! k) ''Time''"
    using assms(4) by (simp add: update_conv')
  then have "map (\<lambda>x. js_get x ''Time'') (items[k := JObj (AList.update ''Elapsed Time'' v fs)])
      = map (\<lambda>x. js_get x ''Time'') items"
    using assms(3) by (simp add: map_update list_update_same_conv)
  then have same: "elapsed_before fadd (items[k := JObj (AList.update ''Elapsed Time'' v fs)]) j
      = elapsed_before fadd items j"
    by (rule elapsed_before_Time)
  have nonempty: "items \<noteq> []" using assms(3) by auto
  have clean: "JNull \<notin> set items \<and> JUndefined \<notin> set items"
    using validateWorkoutDetails_returns [of fadd "JArr items"] assms(1) by auto
  from details_result [OF nonempty, of fadd] clean assms(1,2)
  have each: "\<forall>i<length items.
      valid (validateSegment fadd (items ! i) (idx i) (elapsed_before fadd items i))"
    by auto
  have "\<forall>i<length items. \<exists>t. js_get (items ! i) ''Time'' = JNum (Fin t)"
    using each valid_segment_Time by blast
  then have sum: "elapsed_before fadd items j
      = foldl fadd (Fin 0) (map Time_number (take j items))"
    by (rule elapsed_before_numbers)
  show ?thesis
    using mismatch negative infinite other same sum details_result [of xs fadd] by blast
qed

theorem single_wrong_Elapsed_Time_witness:
  "validateWorkoutDetails js_add
     (JArr [warmup_object, JObj (sprint_fields 10), JObj (cooldown_fields 15)])
     = Inr new_result \<and>
   valid new_result \<and>
   (1::nat) < length [warmup_object, JObj (sprint_fields 10), JObj (cooldown_fields 15)] \<and>
   js_get (JObj (sprint_fields 10)) ''Time'' = JNum (Fin 5) \<and>
   elapsed_before js_add [warmup_object, JObj (sprint_fields 10), JObj (cooldown_fields 15)] 1
     = Fin 5 \<and>
   \<not> js_eq (Fin 7) (js_add (Fin 5) (Fin 5)) \<and>
   (\<exists>r'. validateWorkoutDetails js_add
           (JArr [warmup_object,
                  JObj (AList.update ''Elapsed Time'' (JNum (Fin 7)) (sprint_fields 10)),
                  JObj (cooldown_fields 15)])
         = Inr r' \<and>
        \<not> valid r' \<and>
        errors r' = [elapsed_mismatch (idx 1) (Fin 7) (Fin 10) (Fin 5) (Fin 5)]) \<and>
   (\<exists>r'. validateWorkoutDetails js_add
           (JArr [warmup_object,
                  JObj (AList.update ''Elapsed Time'' (JNum (Fin (- 1))) (sprint_fields 10)),
                  JObj (cooldown_fields 15)])
         = Inr r' \<and>
        \<not> valid r' \<and>
        errors r' = [[Txt ''Segment '', Num (idx 1), Txt '': Elapsed Time '', Num (Fin (- 1)),
                      Txt '' cannot be negative'']]) \<and>
   (\<exists>r'. validateWorkoutDetails js_add
           (JArr [warmup_object,
                  JObj (AList.update ''Elapsed Time'' (JNum PosInf) (sprint_fields 10)),
                  JObj (cooldown_fields 15)])
         = Inr r' \<and>
        \<not> valid r' \<and>
        errors r' = [[Txt ''Segment '', Num (idx 1),
                      Txt '': Elapsed Time must be a finite number'']]) \<and>
   (\<exists>r'. validateWorkoutDetails js_add
           (JArr [warmup_object,
                  JObj (AList.update ''Elapsed Time'' (JStr ''ten'') (sprint_fields 10)),
                  JObj (cooldown_fields 15)])
         = Inr r' \<and>
        \<not> valid r' \<and>
        errors r' = [[Txt ''Segment '', Num (idx 1),
                      Txt '': Elapsed Time must be a number, got '', Txt ''string'']]) \<and>
   elapsed_before js_add [warmup_object, JObj (sprint_fields 10), JObj (cooldown_fields 15)] 2
     = foldl js_add (Fin 0) [Fin 5, Fin 5]"
proof -
  let ?items = "[warmup_object, JObj (sprint_fields 10), JObj (cooldown_fields 15)]"
  have run: "validateWorkoutDetails js_add (JArr ?items) = Inr new_result"
    by (rule three_segments)
  have ok: "valid new_result" by simp
  have k: "(1::nat) < length ?items" by simp
  have item: "?items ! 1 = JObj (sprint_fields 10)" by simp
  have time: "js_get (JObj (sprint_fields 10)) ''Time'' = JNum (Fin 5)"
    by (simp add: sprint_fields_def)
  have step: "elapsed_before js_add ?items (Suc 0) = Fin 5"
    by (simp add: elapsed_before_def next_previousElapsedTime_def warmup_object_def)
  then have before: "elapsed_before js_add ?items 1 = Fin 5"
    by simp
  have wrong: "\<not> js_eq (Fin 7) (js_add (Fin 5) (Fin 5))"
    by (simp add: js_eq_def)
  have numbers: "map Time_number (take 2 ?items) = [Fin 5, Fin 5]"
    by (simp add: Time_number_def warmup_object_def sprint_fields_def numeral_2_eq_2)
  note claim = single_wrong_Elapsed_Time [OF run ok k item time]
  have mismatch: "\<exists>r'. validateWorkoutDetails js_add
           (JArr [warmup_object,
                  JObj (AList.update ''Elapsed Time'' (JNum (Fin 7)) (sprint_fields 10)),
                  JObj (cooldown_fields 15)])
         = Inr r' \<and>
        \<not> valid r' \<and>
        errors r' = [elapsed_mismatch (idx 1) (Fin 7) (Fin 10) (Fin 5) (Fin 5)]"
    using claim [of 7] wrong by (simp add: step)
  have negative: "\<exists>r'. validateWorkoutDetails js_add
           (JArr [warmup_object,
                  JObj (AList.update ''Elapsed Time'' (JNum (Fin (- 1))) (sprint_fields 10)),
                  JObj (cooldown_fields 15)])
         = Inr r' \<and>
        \<not> valid r' \<and>
        errors r' = [[Txt ''Segment '', Num (idx 1), Txt '': Elapsed Time '', Num (Fin (- 1)),
                      Txt '' cannot be negative'']]"
    using claim [of "- 1"] by simp
  have infinite: "\<exists>r'. validateWorkoutDetails js_add
           (JArr [warmup_object,
                  JObj (AList.update ''Elapsed Time'' (JNum PosInf) (sprint_fields 10)),
                  JObj (cooldown_fields 15)])
         = Inr r' \<and>
        \<not> valid r' \<and>
        errors r' = [[Txt ''Segment '', Num (idx 1),
                      Txt '': Elapsed Time must be a finite number'']]"
    using claim [where n = PosInf] by simp
  have other: "\<exists>r'. validateWorkoutDetails js_add
           (JArr [warmup_object,
                  JObj (AList.update ''Elapsed Time'' (JStr ''ten'') (sprint_fields 10)),
                  JObj (cooldown_fields 15)])
         = Inr r' \<and>
        \<not> valid r' \<and>
        errors r' = [[Txt ''Segment '', Num (idx 1),
                      Txt '': Elapsed Time must be a number, got '', Txt ''string'']]"
    using claim [where v = "JStr ''ten''"] by simp
  have sum: "elapsed_before js_add ?items 2 = foldl js_add (Fin 0) [Fin 5, Fin 5]"
    using claim [where j = 2] numbers by simp
  show ?thesis
    using run k time before wrong mismatch negative infinite other sum by simp
qed

text \<open>
  The claim as stated, for any wrong value, does not hold. In the two-segment workout the
  consistent \<^verbatim>\<open>Elapsed Time\<close> of the second segment is 10. With the wrong value -1 the
  only error is that the value is negative, not a consistency error; with the wrong
  value 130 there is no error at all and the result is valid, with a warning.
\<close>

theorem wrong_Elapsed_Time_other_errors:
  "validateWorkoutDetails js_add (JArr [warmup_object, JObj (cooldown_fields 10)])
     = Inr \<lparr>valid = True, errors = [], warnings = []\<rparr> \<and>
   validateWorkoutDetails js_add (JArr [warmup_object, JObj (cooldown_fields (- 1))])
     = Inr \<lparr>valid = False,
            errors = [[Txt ''Segment '', Num (idx 1), Txt '': Elapsed Time '', Num (Fin (- 1)),
                       Txt '' cannot be negative'']],
            warnings = []\<rparr> \<and>
   validateWorkoutDetails js_add (JArr [warmup_object, JObj (cooldown_fields 130)])
     = Inr \<lparr>valid = True, errors = [],
            warnings = [[Txt ''Segment '', Num (idx 1), Txt '': Elapsed Time '', Num (Fin 130),
                         Txt '' exceeds typical workout duration'']]\<rparr>"
  by (simp add: two_segments cooldown_result merge_result_def new_result_def push_errors_def
      push_warnings_def set_invalid_def idx_def)

subsection \<open>Loading, then validating\<close>

lemma load_loop_Inr:
  "load_segments_loop fp items k acc = Inr segs \<Longrightarrow>
   \<exists>new. segs = acc @ new \<and> length new = length items \<and>
     (\<forall>j<length items. load_segment fp (k + j) (items ! j) = Inr (new ! j))"
proof (induction items arbitrary: k acc)
  case Nil
  then show ?case by simp
next
  case (Cons item rest)
  from Cons.prems obtain seg where seg: "load_segment fp k item = Inr seg"
    and rest: "load_segments_loop fp rest (Suc k) (acc @ [seg]) = Inr segs"
    by (auto split: sum.splits)
  from Cons.IH [OF rest] obtain new where new: "segs = (acc @ [seg]) @ new"
    "length new = length rest"
    "\<forall>j<length rest. load_segment fp (Suc k + j) (rest ! j) = Inr (new ! j)"
    by blast
  have "\<forall>j<length (item # rest).
      load_segment fp (k + j) ((item # rest) ! j) = Inr ((seg # new) ! j)"
  proof (intro allI impI)
    fix j assume "j < length (item # rest)"
    then show "load_segment fp (k + j) ((item # rest) ! j) = Inr ((seg # new) ! j)"
      using seg new(3) by (cases j) simp_all
  qed
  then show ?case
    using new(1,2) by (intro exI [of _ "seg # new"]) simp
qed

lemma loaded_ranges:
  assumes "loadWorkoutDetails pf fp = Inr segs"
  shows "segs \<noteq> [] \<and>
    (\<forall>j<length segs.
       isFinite (Time (segs ! j)) \<and> isFinite (Resistance (segs ! j)) \<and>
       \<not> js_gt (Resistance (segs ! j)) (Fin 20) \<and>
       isFinite (Cadence (segs ! j)) \<and> \<not> js_gt (Cadence (segs ! j)) (Fin 150) \<and>
       isFinite (Elapsed_Time (segs ! j)) \<and> \<not> js_lt (Elapsed_Time (segs ! j)) (Fin 0))"
proof -
  from assms obtain items where items: "items \<noteq> []"
    "load_segments_loop fp items 0 [] = Inr segs"
    by (auto simp: loadWorkoutDetails_def split: sum.splits jsval.splits if_splits)
  from load_loop_Inr [OF items(2)] have len: "length segs = length items"
    and each: "\<forall>j<length items. load_segment fp j (items ! j) = Inr (segs ! j)"
    by auto
  from len items(1) have "segs \<noteq> []" by auto
  moreover have "isFinite (Time (segs ! j)) \<and> isFinite (Resistance (segs ! j)) \<and>
       \<not> js_gt (Resistance (segs ! j)) (Fin 20) \<and>
       isFinite (Cadence (segs ! j)) \<and> \<not> js_gt (Cadence (segs ! j)) (Fin 150) \<and>
       isFinite (Elapsed_Time (segs ! j)) \<and> \<not> js_lt (Elapsed_Time (segs ! j)) (Fin 0)"
    if "j < length segs" for j
  proof -
    from that len each have "load_segment fp j (items ! j) = Inr (segs ! j)" by simp
    then show ?thesis unfolding load_segment_Inr by simp
  qed
  ultimately show ?thesis by blast
qed

lemma foldl_next_typed:
  "\<forall>s\<in>set ys. isFinite (Time s) \<Longrightarrow>
   foldl (next_previousElapsedTime fadd) p (map segment_to_js ys) = foldl fadd p (map Time ys)"
proof (induction ys arbitrary: p)
  case Nil
  then show ?case by simp
next
  case (Cons y ys)
  then have "isFinite (Time y)" by simp
  then have "next_previousElapsedTime fadd p (segment_to_js y) = fadd p (Time y)"
    by (simp add: next_previousElapsedTime_def segment_to_js_def)
  with Cons show ?case by simp
qed

lemma elapsed_before_typed:
  assumes "\<forall>j<length segs. isFinite (Time (segs ! j))"
  shows "elapsed_before fadd (map segment_to_js segs) j
           = foldl fadd (Fin 0) (map Time (take j segs))"
proof -
  have "\<forall>s\<in>set (take j segs). isFinite (Time s)"
  proof
    fix s assume "s \<in> set (take j segs)"
    then have "s \<in> set segs" by (rule in_set_takeD)
    then obtain i where "i < length segs" "segs ! i = s" by (auto simp: in_set_conv_nth)
    with assms show "isFinite (Time s)" by auto
  qed
  then have "foldl (next_previousElapsedTime fadd) (Fin 0) (map segment_to_js (take j segs))
      = foldl fadd (Fin 0) (map Time (take j segs))"
    by (rule foldl_next_typed)
  then show ?thesis by (simp add: elapsed_before_def take_map)
qed

text \<open>
  Claim C3, amended. If \<open>loadWorkoutDetails\<close> accepts a file and every loaded segment also
  has \<^verbatim>\<open>Time\<close> at least 1, an \<^verbatim>\<open>Activity\<close> that is not blank, \<^verbatim>\<open>Resistance\<close> at least 1,
  \<^verbatim>\<open>Cadence\<close> at least 30 and an \<^verbatim>\<open>Elapsed Time\<close> equal to the sum of the \<^verbatim>\<open>Time\<close> fields up
  to and including it, as the program adds them (from 0, in the order of the file, each
  sum rounded as the program's addition rounds), then \<open>validateWorkoutDetails\<close> on the
  loaded segments returns a result that is valid and has no errors.
\<close>

theorem loaded_segments_validate:
  assumes "loadWorkoutDetails pf fp = Inr segs"
    and "\<forall>j<length segs.
           js_le (Fin 1) (Time (segs ! j)) \<and> js_trim (Activity (segs ! j)) \<noteq> [] \<and>
           js_le (Fin 1) (Resistance (segs ! j)) \<and> js_le (Fin 30) (Cadence (segs ! j)) \<and>
           js_eq (Elapsed_Time (segs ! j))
             (foldl fadd (Fin 0) (map Time (take (Suc j) segs)))"
  shows "\<exists>r. validateWorkoutDetails fadd (JArr (map segment_to_js segs)) = Inr r \<and>
             valid r \<and> errors r = []"
proof -
  let ?items = "map segment_to_js segs"
  from loaded_ranges [OF assms(1)] have nonempty: "segs \<noteq> []"
    and ranges: "\<forall>j<length segs.
       isFinite (Time (segs ! j)) \<and> isFinite (Resistance (segs ! j)) \<and>
       \<not> js_gt (Resistance (segs ! j)) (Fin 20) \<and>
       isFinite (Cadence (segs ! j)) \<and> \<not> js_gt (Cadence (segs ! j)) (Fin 150) \<and>
       isFinite (Elapsed_Time (segs ! j)) \<and> \<not> js_lt (Elapsed_Time (segs ! j)) (Fin 0)"
    by blast+
  have finite: "\<forall>j<length segs. isFinite (Time (segs ! j))"
    using ranges by blast
  have "?items \<noteq> []" "JNull \<notin> set ?items" "JUndefined \<notin> set ?items"
    using nonempty by (auto simp: segment_to_js_def segment_object_def)
  from details_result [OF this, of fadd]
  obtain r where r: "validateWorkoutDetails fadd (JArr ?items) = Inr r"
    "valid r = (\<forall>j<length ?items. valid (validateSegment fadd (?items ! j) (idx j)
                                        (elapsed_before fadd ?items j)))"
    by blast
  have "valid (validateSegment fadd (?items ! j) (idx j) (elapsed_before fadd ?items j))"
    if j: "j < length segs" for j
  proof -
    let ?s = "segs ! j"
    let ?p = "foldl fadd (Fin 0) (map Time (take j segs))"
    from ranges j obtain t x c e where fields: "Time ?s = Fin t" "Resistance ?s = Fin x"
      "Cadence ?s = Fin c" "Elapsed_Time ?s = Fin e"
      by (auto simp: isFinite_iff)
    from ranges j fields have upper: "x \<le> 20" "c \<le> 150" "0 \<le> e"
      by (auto simp: js_gt_def)
    from assms(2) j fields have lower: "1 \<le> t" "js_trim (Activity ?s) \<noteq> []" "1 \<le> x" "30 \<le> c"
      by auto
    have "take (Suc j) segs = take j segs @ [?s]"
      using j by (rule take_Suc_conv_app_nth)
    then have "foldl fadd (Fin 0) (map Time (take (Suc j) segs)) = fadd ?p (Fin t)"
      using fields(1) by simp
    with assms(2) j fields(4) have sum: "js_eq (Fin e) (fadd ?p (Fin t))"
      by auto
    have passes: "Elapsed_Time_passes fadd (elapsed_before fadd ?items j) (JNum (Fin t)) (JNum (Fin e))"
      using sum upper(3) by (simp add: Elapsed_Time_passes_def elapsed_before_typed [OF finite])
    show ?thesis
      using j fields upper lower passes
      by (simp add: segment_to_js_def valid_validateSegment_object)
  qed
  then have "valid r" using r(2) by simp
  moreover from this have "errors r = []"
    using consistent_validateWorkoutDetails [OF r(1)] by (simp add: consistent_def)
  ultimately show ?thesis using r(1) by blast
qed

theorem loaded_segments_validate_witness:
  "loadWorkoutDetails
     (example_platform (JArr (map segment_to_js [example_segment 5 5, example_segment 5 10])))
     ''w.json''
     = Inr [example_segment 5 5, example_segment 5 10] \<and>
   js_trim ''Sprint'' \<noteq> [] \<and>
   js_eq (Elapsed_Time (example_segment 5 5))
     (foldl js_add (Fin 0) (map Time (take 1 [example_segment 5 5, example_segment 5 10]))) \<and>
   js_eq (Elapsed_Time (example_segment 5 10))
     (foldl js_add (Fin 0) (map Time (take 2 [example_segment 5 5, example_segment 5 10]))) \<and>
   (\<exists>r. validateWorkoutDetails js_add
          (JArr (map segment_to_js [example_segment 5 5, example_segment 5 10])) = Inr r \<and>
        valid r \<and> errors r = [])"
proof -
  let ?segs = "[example_segment 5 5, example_segment 5 10]"
  have parsed: "loadJsonFile (example_platform d) ''w.json'' = Inr d" for d
    by (simp add: loadJsonFile_def example_platform_def js_trim_def js_isSpace_def)
  have one: "load_segment ''w.json'' i (segment_to_js (example_segment 5 e))
      = Inr (example_segment 5 e)" if "0 \<le> e" for i e
    using that
    by (simp add: load_segment_Inr segment_to_js_def example_segment_def js_gt_def)
  have load: "loadWorkoutDetails (example_platform (JArr (map segment_to_js ?segs))) ''w.json''
      = Inr ?segs"
    by (simp add: loadWorkoutDetails_def parsed one)
  have sprint: "js_trim ''Sprint'' \<noteq> []"
    by (simp add: js_trim_def js_isSpace_def)
  have first: "js_eq (Elapsed_Time (example_segment 5 5))
      (foldl js_add (Fin 0) (map Time (take 1 ?segs)))"
    by (simp add: example_segment_def js_eq_def)
  have second: "js_eq (Elapsed_Time (example_segment 5 10))
      (foldl js_add (Fin 0) (map Time (take 2 ?segs)))"
    by (simp add: example_segment_def js_eq_def)
  have each: "\<forall>j<length ?segs.
      js_le (Fin 1) (Time (?segs ! j)) \<and> js_trim (Activity (?segs ! j)) \<noteq> [] \<and>
      js_le (Fin 1) (Resistance (?segs ! j)) \<and> js_le (Fin 30) (Cadence (?segs ! j)) \<and>
      js_eq (Elapsed_Time (?segs ! j)) (foldl js_add (Fin 0) (map Time (take (Suc j) ?segs)))"
  proof (intro allI impI)
    fix j assume "j < length ?segs"
    then consider "j = 0" | "j = 1" by fastforce
    then show "js_le (Fin 1) (Time (?segs ! j)) \<and> js_trim (Activity (?segs ! j)) \<noteq> [] \<and>
      js_le (Fin 1) (Resistance (?segs ! j)) \<and> js_le (Fin 30) (Cadence (?segs ! j)) \<and>
      js_eq (Elapsed_Time (?segs ! j)) (foldl js_add (Fin 0) (map Time (take (Suc j) ?segs)))"
    proof cases
      case 1
      then show ?thesis using sprint first by (simp add: example_segment_def)
    next
      case 2
      then show ?thesis using sprint second by (simp add: example_segment_def)
    qed
  qed
  from loaded_segments_validate [OF load each]
  show ?thesis using load sprint first second by blast
qed

text \<open>
  Without the further conditions the round trip fails: a file with the single segment of
  \<^verbatim>\<open>Resistance\<close> 0 is loaded, since the loader's range is \<open>[0, 20]\<close>, and the validator,
  whose range is \<open>[1, 20]\<close>, reports an error on the loaded segment.
\<close>

theorem loaded_file_fails_validation:
  "loadWorkoutDetails
     (example_platform
        (JArr [segment_object (Fin 5) ''Warm-up'' (Fin 0) (Fin 80) [] (Fin 5)]))
     ''w.json''
     = Inr [\<lparr>Time = Fin 5, Activity = ''Warm-up'', Resistance = Fin 0, Cadence = Fin 80,
             Stroke_instruction = [], Elapsed_Time = Fin 5\<rparr>] \<and>
   validateWorkoutDetails js_add
     (JArr (map segment_to_js
              [\<lparr>Time = Fin 5, Activity = ''Warm-up'', Resistance = Fin 0, Cadence = Fin 80,
                Stroke_instruction = [], Elapsed_Time = Fin 5\<rparr>]))
     = Inr \<lparr>valid = False,
            errors = [[Txt ''Segment '', Num (idx 0), Txt '': Resistance '', Num (Fin 0),
                       Txt '' is less than minimum '', Num minResistance]],
            warnings =
              [[Txt (''Workout does not end with a Cool-down (ends with '' @ [CHR 0x27]),
                Txt ''Warm-up'', Txt ([CHR 0x27] @ '')'')]]\<rparr>"
proof -
  have parsed: "loadJsonFile (example_platform d) ''w.json'' = Inr d" for d
    by (simp add: loadJsonFile_def example_platform_def js_trim_def js_isSpace_def)
  have one: "load_segment ''w.json'' 0 (segment_object (Fin 5) ''Warm-up'' (Fin 0) (Fin 80) [] (Fin 5))
      = Inr \<lparr>Time = Fin 5, Activity = ''Warm-up'', Resistance = Fin 0, Cadence = Fin 80,
             Stroke_instruction = [], Elapsed_Time = Fin 5\<rparr>"
    by (simp add: load_segment_Inr js_gt_def)
  have load: "loadWorkoutDetails
     (example_platform
        (JArr [segment_object (Fin 5) ''Warm-up'' (Fin 0) (Fin 80) [] (Fin 5)]))
     ''w.json''
     = Inr [\<lparr>Time = Fin 5, Activity = ''Warm-up'', Resistance = Fin 0, Cadence = Fin 80,
             Stroke_instruction = [], Elapsed_Time = Fin 5\<rparr>]"
    by (simp add: loadWorkoutDetails_def parsed one)
  have seg: "validateSegment js_add (segment_object (Fin 5) ''Warm-up'' (Fin 0) (Fin 80) [] (Fin 5))
      (idx 0) (Fin 0)
      = \<lparr>valid = False,
         errors = [[Txt ''Segment '', Num (idx 0), Txt '': Resistance '', Num (Fin 0),
                    Txt '' is less than minimum '', Num minResistance]],
         warnings = []\<rparr>"
    by (simp add: segment_object_def segment_evaluation)
  have validated: "validateWorkoutDetails js_add
     (JArr [segment_object (Fin 5) ''Warm-up'' (Fin 0) (Fin 80) [] (Fin 5)])
     = Inr \<lparr>valid = False,
            errors = [[Txt ''Segment '', Num (idx 0), Txt '': Resistance '', Num (Fin 0),
                       Txt '' is less than minimum '', Num minResistance]],
            warnings =
              [[Txt (''Workout does not end with a Cool-down (ends with '' @ [CHR 0x27]),
                Txt ''Warm-up'', Txt ([CHR 0x27] @ '')'')]]\<rparr>"
    by (simp add: validateWorkoutDetails_def Let_def seg merge_result_def push_errors_def
        push_warnings_def set_invalid_def new_result_def check_warmup_def check_cooldown_def
        warn_def)
  show ?thesis
    using load validated by (simp add: segment_to_js_def)
qed

end
